theory Spec2Isabelle
  imports
    Main
    "HOL-Library.Char_ord"
    "HOL-Library.List_Lexorder"
    "HOL-Library.Product_Lexorder"
    "HOL-Library.Sublist"
    "HOL-Library.Multiset"
begin

section \<open>Terminal diary: the two storage backends of \<open>diary.py\<close>\<close>

text \<open>
  The development embeds the classes \<open>SQLiteStorage\<close> and \<open>JSONStorage\<close> of
  \<open>src/diary.py\<close>. Text is a \<^typ>\<open>string\<close>; strings are compared as Python and
  SQLite's BINARY collation compare them, character by character and the shorter one first
  (the lexicographic order of \<open>List_Lexorder\<close> over \<open>Char_ord\<close>). A \<^typ>\<open>char\<close> is one
  byte, so the model speaks about ASCII text: one \<^typ>\<open>char\<close> is one character, and
  lower-casing touches the letters \<open>A\<close> to \<open>Z\<close> only. Python lower-cases every Unicode
  letter, so what is proved about which entries a keyword search returns is stated for
  ASCII text (\<open>ascii_text\<close> below) and for no other.

  The two sources of nondeterminism, \<open>uuid4()\<close> and \<open>datetime.utcnow().isoformat()\<close>,
  are arguments of the operations that call them (\<open>uuid\<close> and \<open>now\<close>). A timestamp is the
  ISO-8601 string the code stores, and the order of such strings is the order of the
  instants they denote. The values in the dictionaries have the types the application
  gives them: text, and a list of texts for the tags. The file system and
  the database connection are assumed to work: the only failures modelled are the ones the
  code itself can produce, a \<open>KeyError\<close> for a missing dictionary key, SQLite's
  \<open>IntegrityError\<close> for a violated \<open>PRIMARY KEY\<close> and its \<open>OperationalError\<close> for a
  \<open>LIKE\<close> pattern that is too long.
\<close>

subsection \<open>Data\<close>

datatype error = KeyError string | IntegrityError | OperationalError

text \<open>
  The dictionary handed to \<open>add_entry\<close> and \<open>update_entry\<close>. A field is \<open>None\<close> when the
  key is missing from the dictionary.
\<close>

record draft =
  d_id :: "string option"
  d_date :: "string option"
  d_title :: "string option"
  d_body :: "string option"
  d_mood :: "string option"
  d_tags :: "string list option"

text \<open>
  The dictionary with eight keys that the read operations return, which is also the
  object the JSON backend keeps in the list \<open>"entries"\<close> of its document.
\<close>

record entry =
  entry_id :: string
  date :: string
  title :: string
  body :: string
  mood :: string
  tags :: "string list"
  created_at :: string
  updated_at :: string

text \<open>A row of the table \<open>entries\<close>; every column is \<open>TEXT\<close>, the tags are one string.\<close>

record row =
  row_id :: string
  row_date :: string
  row_title :: string
  row_body :: string
  row_mood :: string
  row_tags :: string
  row_created_at :: string
  row_updated_at :: string

text \<open>
  The table is the list of its rows in rowid order, which is insertion order (a new row
  gets a rowid above every rowid in the table). The JSON document is the list under its
  key \<open>"entries"\<close>; \<open>_read\<close> and \<open>_write\<close> load and store that list unchanged.
\<close>

type_synonym sqlite_db = "row list"
type_synonym json_doc = "entry list"

subsection \<open>Python and SQL primitives\<close>

text \<open>\<open>d.get(key, default)\<close>.\<close>

definition dict_get :: "'a option \<Rightarrow> 'a \<Rightarrow> 'a" where
  "dict_get v dflt = (case v of None \<Rightarrow> dflt | Some x \<Rightarrow> x)"

text \<open>\<open>sep.join(xs)\<close>.\<close>

fun str_join :: "string \<Rightarrow> string list \<Rightarrow> string" where
  "str_join sep [] = []"
| "str_join sep [x] = x"
| "str_join sep (x # y # ys) = x @ sep @ str_join sep (y # ys)"

text \<open>\<open>s.split(c)\<close> for a separator of one character; the result is never empty.\<close>

fun str_split :: "string \<Rightarrow> char \<Rightarrow> string list" where
  "str_split [] c = [[]]"
| "str_split (x # xs) c =
     (if x = c then [] # str_split xs c
      else (x # hd (str_split xs c)) # tl (str_split xs c))"

text \<open>
  \<open>s.lower()\<close> on an ASCII string, which is also the case folding of SQLite's \<open>LIKE\<close>: the
  letters \<open>A\<close> to \<open>Z\<close> become \<open>a\<close> to \<open>z\<close>, every other character stays. On a string
  with other than ASCII characters Python's \<open>lower\<close> does more, which this function does
  not follow.
\<close>

definition lower_chr :: "char \<Rightarrow> char" where
  "lower_chr c =
     (case map_of (zip ''ABCDEFGHIJKLMNOPQRSTUVWXYZ'' ''abcdefghijklmnopqrstuvwxyz'') c of
        None \<Rightarrow> c
      | Some l \<Rightarrow> l)"

definition lower :: "string \<Rightarrow> string" where
  "lower s = map lower_chr s"

text \<open>
  SQLite's pattern matcher for \<open>LIKE\<close> without an \<open>ESCAPE\<close> clause: \<open>%\<close> stands for any
  run of characters, \<open>_\<close> for exactly one, every other character for itself up to ASCII
  case.
\<close>

fun pattern_compare :: "string \<Rightarrow> string \<Rightarrow> bool" where
  "pattern_compare [] s = (s = [])"
| "pattern_compare (p # ps) [] = (p = CHR ''%'' \<and> pattern_compare ps [])"
| "pattern_compare (p # ps) (c # cs) =
     (if p = CHR ''%'' then pattern_compare ps (c # cs) \<or> pattern_compare (p # ps) cs
      else if p = CHR ''_'' then pattern_compare ps cs
      else lower_chr p = lower_chr c \<and> pattern_compare ps cs)"

text \<open>
  The matcher reads both operands as C strings: each ends at its first NUL character,
  whatever follows it in the stored text.
\<close>

definition c_string :: "string \<Rightarrow> string" where
  "c_string s = takeWhile (\<lambda>c. c \<noteq> CHR 0x00) s"

text \<open>\<open>text LIKE pattern\<close>, for a pattern within the length limit.\<close>

definition like :: "string \<Rightarrow> string \<Rightarrow> bool" where
  "like pat s = pattern_compare (c_string pat) (c_string s)"

text \<open>
  SQLite refuses a \<open>LIKE\<close> pattern of more than 50000 bytes
  (\<open>SQLITE_MAX_LIKE_PATTERN_LENGTH\<close>): evaluating the operator raises
  \<open>OperationalError\<close>.
\<close>

definition like_pattern_limit :: nat where
  "like_pattern_limit = 50000"

text \<open>
  \<open>sorted(xs, key=key, reverse=True)\<close>: Python reverses the list, sorts it with its stable
  sort and reverses the result, so that elements with equal keys keep their order.
\<close>

definition sorted_reverse :: "('a \<Rightarrow> 'k::linorder) \<Rightarrow> 'a list \<Rightarrow> 'a list" where
  "sorted_reverse key xs = rev (sort_key key (rev xs))"

text \<open>
  \<open>ORDER BY key DESC\<close> over the rows of a table scan. SQL leaves the order of rows with
  equal keys open; SQLite's sorter returns them in scan order, which is what the model
  does. Only the comparison of the two backends depends on that, and only when two rows
  have equal keys.
\<close>

definition order_by_desc :: "('a \<Rightarrow> 'k::linorder) \<Rightarrow> 'a list \<Rightarrow> 'a list" where
  "order_by_desc key rows = rev (sort_key key (rev rows))"

subsection \<open>\<open>SQLiteStorage\<close>\<close>

definition sqlite_add_entry ::
  "string \<Rightarrow> string \<Rightarrow> sqlite_db \<Rightarrow> draft \<Rightarrow> error + (string \<times> sqlite_db)" where
  "sqlite_add_entry uuid now db entry =
     (let eid = dict_get (d_id entry) uuid in
      case d_date entry of
        None \<Rightarrow> Inl (KeyError ''date'')
      | Some d \<Rightarrow>
          (let r = \<lparr>row_id = eid, row_date = d,
                    row_title = dict_get (d_title entry) [],
                    row_body = dict_get (d_body entry) [],
                    row_mood = dict_get (d_mood entry) [],
                    row_tags = str_join '','' (dict_get (d_tags entry) []),
                    row_created_at = now, row_updated_at = now\<rparr>
           in if list_ex (\<lambda>x. row_id x = eid) db then Inl IntegrityError
              else Inr (eid, db @ [r])))"

definition row_to_entry :: "row \<Rightarrow> entry" where
  "row_to_entry r =
     \<lparr>entry_id = row_id r, date = row_date r, title = row_title r, body = row_body r,
      mood = row_mood r,
      tags = (if row_tags r \<noteq> [] then str_split (row_tags r) CHR '','' else []),
      created_at = row_created_at r, updated_at = row_updated_at r\<rparr>"

definition sqlite_get_entry :: "sqlite_db \<Rightarrow> string \<Rightarrow> entry option" where
  "sqlite_get_entry db eid = map_option row_to_entry (find (\<lambda>r. row_id r = eid) db)"

definition sqlite_get_entries_by_date :: "sqlite_db \<Rightarrow> string \<Rightarrow> entry list" where
  "sqlite_get_entries_by_date db date_str =
     map row_to_entry (order_by_desc row_created_at (filter (\<lambda>r. row_date r = date_str) db))"

text \<open>The \<open>WHERE\<close> clause of \<open>search_entries\<close>.\<close>

definition sqlite_matches :: "string \<Rightarrow> row \<Rightarrow> bool" where
  "sqlite_matches pat r \<longleftrightarrow>
     like pat (row_title r) \<or> like pat (row_body r) \<or> like pat (row_tags r)"

text \<open>
  The \<open>WHERE\<close> clause is evaluated once for every row of the table, so a pattern over the
  limit raises as soon as the table has a row, and never on an empty table.
\<close>

definition sqlite_search_entries :: "sqlite_db \<Rightarrow> string \<Rightarrow> error + entry list" where
  "sqlite_search_entries db keyword =
     (let pat = ''%'' @ keyword @ ''%'' in
      if db \<noteq> [] \<and> like_pattern_limit < length pat then Inl OperationalError
      else Inr (map row_to_entry (order_by_desc row_date (filter (sqlite_matches pat) db))))"

definition sqlite_list_entries :: "sqlite_db \<Rightarrow> entry list" where
  "sqlite_list_entries db =
     map row_to_entry (order_by_desc (\<lambda>r. (row_date r, row_created_at r)) db)"

definition sqlite_update_entry ::
  "string \<Rightarrow> sqlite_db \<Rightarrow> string \<Rightarrow> draft \<Rightarrow> error + (bool \<times> sqlite_db)" where
  "sqlite_update_entry now db eid updated =
     (case d_date updated of
        None \<Rightarrow> Inl (KeyError ''date'')
      | Some d \<Rightarrow>
          Inr (list_ex (\<lambda>r. row_id r = eid) db,
               map (\<lambda>r. if row_id r = eid
                         then r\<lparr>row_date := d,
                                row_title := dict_get (d_title updated) [],
                                row_body := dict_get (d_body updated) [],
                                row_mood := dict_get (d_mood updated) [],
                                row_tags := str_join '','' (dict_get (d_tags updated) []),
                                row_updated_at := now\<rparr>
                         else r) db))"

definition sqlite_delete_entry :: "sqlite_db \<Rightarrow> string \<Rightarrow> bool \<times> sqlite_db" where
  "sqlite_delete_entry db eid =
     (list_ex (\<lambda>r. row_id r = eid) db, filter (\<lambda>r. row_id r \<noteq> eid) db)"

subsection \<open>\<open>JSONStorage\<close>\<close>

definition json_add_entry ::
  "string \<Rightarrow> string \<Rightarrow> json_doc \<Rightarrow> draft \<Rightarrow> error + (string \<times> json_doc)" where
  "json_add_entry uuid now doc entry =
     (let eid = dict_get (d_id entry) uuid in
      case d_date entry of
        None \<Rightarrow> Inl (KeyError ''date'')
      | Some d \<Rightarrow>
          (let stored = \<lparr>entry_id = eid, date = d,
                         title = dict_get (d_title entry) [],
                         body = dict_get (d_body entry) [],
                         mood = dict_get (d_mood entry) [],
                         tags = dict_get (d_tags entry) [],
                         created_at = now, updated_at = now\<rparr>
           in Inr (eid, doc @ [stored])))"

definition json_get_entry :: "json_doc \<Rightarrow> string \<Rightarrow> entry option" where
  "json_get_entry doc eid = find (\<lambda>e. entry_id e = eid) doc"

definition json_get_entries_by_date :: "json_doc \<Rightarrow> string \<Rightarrow> entry list" where
  "json_get_entries_by_date doc date_str = filter (\<lambda>e. date e = date_str) doc"

text \<open>
  The condition of the loop in \<open>search_entries\<close>; \<open>a in b\<close> on strings is
  \<^term>\<open>sublist a b\<close>.
\<close>

definition json_matches :: "string \<Rightarrow> entry \<Rightarrow> bool" where
  "json_matches keyword_lower e \<longleftrightarrow>
     sublist keyword_lower (lower (title e))
     \<or> sublist keyword_lower (lower (body e))
     \<or> list_ex (\<lambda>t. sublist keyword_lower (lower t)) (tags e)"

definition json_search_entries :: "json_doc \<Rightarrow> string \<Rightarrow> entry list" where
  "json_search_entries doc keyword =
     (let keyword_lower = lower keyword;
          res = filter (json_matches keyword_lower) doc
      in sorted_reverse date res)"

definition json_list_entries :: "json_doc \<Rightarrow> entry list" where
  "json_list_entries doc = sorted_reverse (\<lambda>x. (date x, created_at x)) doc"

text \<open>
  The loop of \<open>update_entry\<close>: the first entry with the id is rewritten and the loop
  returns; \<open>updated["date"]\<close> is only read once such an entry is found.
\<close>

fun json_update_entry ::
  "string \<Rightarrow> json_doc \<Rightarrow> string \<Rightarrow> draft \<Rightarrow> error + (bool \<times> json_doc)" where
  "json_update_entry now [] eid updated = Inr (False, [])"
| "json_update_entry now (e # es) eid updated =
     (if entry_id e = eid then
        (case d_date updated of
           None \<Rightarrow> Inl (KeyError ''date'')
         | Some d \<Rightarrow>
             Inr (True,
                  e\<lparr>date := d,
                    title := dict_get (d_title updated) [],
                    body := dict_get (d_body updated) [],
                    mood := dict_get (d_mood updated) [],
                    tags := dict_get (d_tags updated) [],
                    updated_at := now\<rparr> # es))
      else
        (case json_update_entry now es eid updated of
           Inl err \<Rightarrow> Inl err
         | Inr (found, es') \<Rightarrow> Inr (found, e # es')))"

definition json_delete_entry :: "json_doc \<Rightarrow> string \<Rightarrow> bool \<times> json_doc" where
  "json_delete_entry doc eid =
     (let new_entries = filter (\<lambda>e. entry_id e \<noteq> eid) doc in
      if length new_entries = length doc then (False, doc) else (True, new_entries))"

subsection \<open>Replaying operations\<close>

text \<open>
  One call of a mutating operation, with the values that \<open>uuid4()\<close> and \<open>utcnow()\<close> return
  during the call: \<open>Add uuid now entry\<close>, \<open>Update now entry_id updated\<close>,
  \<open>Delete entry_id\<close>. A call that raises leaves the store as it was (the menu loop of
  \<open>DiaryApp.run\<close> prints the exception and goes on).
\<close>

datatype op = Add string string draft | Update string string draft | Delete string

fun sqlite_step :: "op \<Rightarrow> sqlite_db \<Rightarrow> sqlite_db" where
  "sqlite_step (Add uuid now entry) db =
     (case sqlite_add_entry uuid now db entry of Inl err \<Rightarrow> db | Inr (eid, db') \<Rightarrow> db')"
| "sqlite_step (Update now eid updated) db =
     (case sqlite_update_entry now db eid updated of Inl err \<Rightarrow> db | Inr (found, db') \<Rightarrow> db')"
| "sqlite_step (Delete eid) db = snd (sqlite_delete_entry db eid)"

fun json_step :: "op \<Rightarrow> json_doc \<Rightarrow> json_doc" where
  "json_step (Add uuid now entry) doc =
     (case json_add_entry uuid now doc entry of Inl err \<Rightarrow> doc | Inr (eid, doc') \<Rightarrow> doc')"
| "json_step (Update now eid updated) doc =
     (case json_update_entry now doc eid updated of Inl err \<Rightarrow> doc | Inr (found, doc') \<Rightarrow> doc')"
| "json_step (Delete eid) doc = snd (json_delete_entry doc eid)"

fun sqlite_run :: "op list \<Rightarrow> sqlite_db \<Rightarrow> sqlite_db" where
  "sqlite_run [] db = db"
| "sqlite_run (x # xs) db = sqlite_run xs (sqlite_step x db)"

fun json_run :: "op list \<Rightarrow> json_doc \<Rightarrow> json_doc" where
  "json_run [] doc = doc"
| "json_run (x # xs) doc = json_run xs (json_step x doc)"

text \<open>The clock readings of a replay, in the order they are taken.\<close>

fun clock_readings :: "op list \<Rightarrow> string list" where
  "clock_readings [] = []"
| "clock_readings (Add uuid now entry # xs) = now # clock_readings xs"
| "clock_readings (Update now eid updated # xs) = now # clock_readings xs"
| "clock_readings (Delete eid # xs) = clock_readings xs"

text \<open>\<open>get_entry(add_entry(entry))\<close>: the entry is added and then looked up by the id returned.\<close>

definition sqlite_add_then_get ::
  "string \<Rightarrow> string \<Rightarrow> sqlite_db \<Rightarrow> draft \<Rightarrow> error + entry option" where
  "sqlite_add_then_get uuid now db entry =
     (case sqlite_add_entry uuid now db entry of
        Inl err \<Rightarrow> Inl err
      | Inr (eid, db') \<Rightarrow> Inr (sqlite_get_entry db' eid))"

definition json_add_then_get ::
  "string \<Rightarrow> string \<Rightarrow> json_doc \<Rightarrow> draft \<Rightarrow> error + entry option" where
  "json_add_then_get uuid now doc entry =
     (case json_add_entry uuid now doc entry of
        Inl err \<Rightarrow> Inl err
      | Inr (eid, doc') \<Rightarrow> Inr (json_get_entry doc' eid))"

text \<open>\<open>update_entry(entry_id, updated)\<close> followed by \<open>get_entry(entry_id)\<close>.\<close>

definition sqlite_update_then_get ::
  "string \<Rightarrow> sqlite_db \<Rightarrow> string \<Rightarrow> draft \<Rightarrow> error + (bool \<times> entry option)" where
  "sqlite_update_then_get now db eid updated =
     (case sqlite_update_entry now db eid updated of
        Inl err \<Rightarrow> Inl err
      | Inr (found, db') \<Rightarrow> Inr (found, sqlite_get_entry db' eid))"

definition json_update_then_get ::
  "string \<Rightarrow> json_doc \<Rightarrow> string \<Rightarrow> draft \<Rightarrow> error + (bool \<times> entry option)" where
  "json_update_then_get now doc eid updated =
     (case json_update_entry now doc eid updated of
        Inl err \<Rightarrow> Inl err
      | Inr (found, doc') \<Rightarrow> Inr (found, json_get_entry doc' eid))"

subsection \<open>Conditions on the arguments\<close>

text \<open>
  ASCII text, on which \<^const>\<open>lower\<close> is Python's \<open>lower\<close>; and ASCII text without a NUL
  character, which \<open>LIKE\<close> reads to its end.
\<close>

definition ascii_text :: "string \<Rightarrow> bool" where
  "ascii_text s \<longleftrightarrow> list_all (\<lambda>c. c < CHR 0x80) s"

definition plain_text :: "string \<Rightarrow> bool" where
  "plain_text s \<longleftrightarrow> ascii_text s \<and> CHR 0x00 \<notin> set s"

definition ascii_entry :: "entry \<Rightarrow> bool" where
  "ascii_entry e \<longleftrightarrow>
     ascii_text (title e) \<and> ascii_text (body e) \<and> list_all ascii_text (tags e)"

definition plain_row :: "row \<Rightarrow> bool" where
  "plain_row r \<longleftrightarrow>
     plain_text (row_title r) \<and> plain_text (row_body r) \<and> plain_text (row_tags r)"

text \<open>A keyword without the two wildcards of \<open>LIKE\<close>.\<close>

definition wildcard_free :: "string \<Rightarrow> bool" where
  "wildcard_free kw \<longleftrightarrow> CHR ''%'' \<notin> set kw \<and> CHR ''_'' \<notin> set kw"

text \<open>
  A tag list that survives the comma-joined column: no tag contains a comma, and the list
  is not the single empty tag (which joins to the empty string, read back as no tag).
\<close>

definition tags_portable :: "string list \<Rightarrow> bool" where
  "tags_portable ts \<longleftrightarrow> list_all (\<lambda>t. CHR '','' \<notin> set t) ts \<and> ts \<noteq> [[]]"

fun op_tags :: "op \<Rightarrow> string list" where
  "op_tags (Add uuid now entry) = dict_get (d_tags entry) []"
| "op_tags (Update now eid updated) = dict_get (d_tags updated) []"
| "op_tags (Delete eid) = []"

text \<open>No \<open>add_entry\<close> of the replay is refused by the \<open>PRIMARY KEY\<close> of the table.\<close>

fun rejected :: "op \<Rightarrow> sqlite_db \<Rightarrow> bool" where
  "rejected (Add uuid now entry) db = (sqlite_add_entry uuid now db entry = Inl IntegrityError)"
| "rejected (Update now eid updated) db = False"
| "rejected (Delete eid) db = False"

fun no_rejected_add :: "op list \<Rightarrow> sqlite_db \<Rightarrow> bool" where
  "no_rejected_add [] db = True"
| "no_rejected_add (x # xs) db = (\<not> rejected x db \<and> no_rejected_add xs (sqlite_step x db))"

subsection \<open>Example data\<close>

definition ex_row :: row where
  "ex_row = \<lparr>row_id = ''a1'', row_date = ''2024-01-01'', row_title = ''First'',
            row_body = ''hello'', row_mood = ''happy'', row_tags = ''x,y'',
            row_created_at = ''2024-01-01T10:00:00'', row_updated_at = ''2024-01-01T10:00:00''\<rparr>"

definition ex_entry :: entry where
  "ex_entry = \<lparr>entry_id = ''a1'', date = ''2024-01-01'', title = ''First'',
            body = ''hello'', mood = ''happy'', tags = [''x'', ''y''],
            created_at = ''2024-01-01T10:00:00'', updated_at = ''2024-01-01T10:00:00''\<rparr>"

definition ex_draft :: draft where
  "ex_draft = \<lparr>d_id = None, d_date = Some ''2024-01-02'', d_title = Some ''Second'',
              d_body = None, d_mood = Some ''calm'', d_tags = Some [''x'', ''y'']\<rparr>"

definition ex_draft_with_id :: draft where
  "ex_draft_with_id = \<lparr>d_id = Some ''a1'', d_date = Some ''2024-01-02'', d_title = Some ''Second'',
              d_body = None, d_mood = None, d_tags = None\<rparr>"

definition ex_draft_no_date :: draft where
  "ex_draft_no_date = \<lparr>d_id = Some ''b2'', d_date = None, d_title = Some ''Undated'',
              d_body = None, d_mood = None, d_tags = None\<rparr>"

definition ex_draft_comma :: draft where
  "ex_draft_comma = \<lparr>d_id = None, d_date = Some ''2024-01-02'', d_title = Some ''Second'',
              d_body = None, d_mood = None, d_tags = Some [''a,b'']\<rparr>"

definition ex_draft_same_id :: draft where
  "ex_draft_same_id = \<lparr>d_id = Some ''a1'', d_date = Some ''2024-03-05'', d_title = None,
              d_body = Some ''again'', d_mood = None, d_tags = Some [''z'']\<rparr>"

definition ex_ops_same_date :: "op list" where
  "ex_ops_same_date =
     [Add ''u1'' ''2024-01-01T08:00:00''
        \<lparr>d_id = None, d_date = Some ''2024-01-01'', d_title = Some ''Morning'',
         d_body = None, d_mood = None, d_tags = None\<rparr>,
      Add ''u2'' ''2024-01-01T21:30:00''
        \<lparr>d_id = None, d_date = Some ''2024-01-01'', d_title = Some ''Evening'',
         d_body = None, d_mood = None, d_tags = None\<rparr>]"

definition ex_update :: draft where
  "ex_update = \<lparr>d_id = None, d_date = Some ''2024-01-05'', d_title = Some ''Edited'',
              d_body = None, d_mood = Some ''sad'', d_tags = Some [''x'']\<rparr>"

definition ex_update_comma :: draft where
  "ex_update_comma = \<lparr>d_id = None, d_date = Some ''2024-01-05'', d_title = Some ''Edited'',
              d_body = None, d_mood = None, d_tags = Some [''a,b'']\<rparr>"

definition ex_update_no_date :: draft where
  "ex_update_no_date = \<lparr>d_id = None, d_date = None, d_title = Some ''Edited'',
              d_body = None, d_mood = None, d_tags = None\<rparr>"

definition ex_ops_clock_back :: "op list" where
  "ex_ops_clock_back =
     [Add ''u1'' ''2024-01-02T00:00:00''
        \<lparr>d_id = None, d_date = Some ''2024-01-02'', d_title = Some ''Note'',
         d_body = None, d_mood = None, d_tags = None\<rparr>,
      Update ''2024-01-01T00:00:00'' ''u1''
        \<lparr>d_id = None, d_date = Some ''2024-01-02'', d_title = Some ''Note, edited'',
         d_body = None, d_mood = None, d_tags = None\<rparr>]"

definition ex_ops :: "op list" where
  "ex_ops =
     [Add ''u1'' ''2024-01-01T08:00:00''
        \<lparr>d_id = None, d_date = Some ''2024-01-01'', d_title = Some ''First'',
         d_body = None, d_mood = Some ''happy'', d_tags = Some [''x'', ''y'']\<rparr>,
      Add ''u2'' ''2024-01-01T09:00:00''
        \<lparr>d_id = None, d_date = Some ''2024-01-03'', d_title = Some ''Second'',
         d_body = Some ''text'', d_mood = None, d_tags = None\<rparr>,
      Update ''2024-01-02T10:00:00'' ''u1''
        \<lparr>d_id = None, d_date = Some ''2024-01-02'', d_title = Some ''First'',
         d_body = None, d_mood = Some ''sad'', d_tags = Some [''x'']\<rparr>,
      Delete ''u2'']"

definition ex_search_doc :: json_doc where
  "ex_search_doc =
     [\<lparr>entry_id = ''s1'', date = ''2024-02-01'', title = ''Sunny day'', body = [],
       mood = [], tags = [''work''],
       created_at = ''2024-02-01T08:00:00'', updated_at = ''2024-02-01T08:00:00''\<rparr>,
      \<lparr>entry_id = ''s2'', date = ''2024-02-03'', title = ''Rainy'', body = ''Worked late'',
       mood = [], tags = [],
       created_at = ''2024-02-03T08:00:00'', updated_at = ''2024-02-03T08:00:00''\<rparr>,
      \<lparr>entry_id = ''s3'', date = ''2024-02-02'', title = ''Walk'', body = ''in the park'',
       mood = [], tags = [''out'', ''sun''],
       created_at = ''2024-02-02T08:00:00'', updated_at = ''2024-02-02T08:00:00''\<rparr>]"

definition ex_search_db :: sqlite_db where
  "ex_search_db =
     [\<lparr>row_id = ''s1'', row_date = ''2024-02-01'', row_title = ''Sunny day'', row_body = [],
       row_mood = [], row_tags = ''work'',
       row_created_at = ''2024-02-01T08:00:00'', row_updated_at = ''2024-02-01T08:00:00''\<rparr>,
      \<lparr>row_id = ''s2'', row_date = ''2024-02-03'', row_title = ''Rainy'', row_body = ''Worked late'',
       row_mood = [], row_tags = [],
       row_created_at = ''2024-02-03T08:00:00'', row_updated_at = ''2024-02-03T08:00:00''\<rparr>,
      \<lparr>row_id = ''s3'', row_date = ''2024-02-02'', row_title = ''Walk'', row_body = ''in the park'',
       row_mood = [], row_tags = ''out,sun'',
       row_created_at = ''2024-02-02T08:00:00'', row_updated_at = ''2024-02-02T08:00:00''\<rparr>]"

definition ex_row_nul :: row where
  "ex_row_nul = \<lparr>row_id = ''n1'', row_date = ''2024-02-04'',
            row_title = [CHR ''a'', CHR 0x00, CHR ''b''], row_body = [], row_mood = [],
            row_tags = [],
            row_created_at = ''2024-02-04T08:00:00'', row_updated_at = ''2024-02-04T08:00:00''\<rparr>"

definition ex_ops_comma :: "op list" where
  "ex_ops_comma = [Add ''u1'' ''2024-01-02T09:00:00'' ex_draft_comma]"

definition ex_ops_same_id :: "op list" where
  "ex_ops_same_id =
     [Add ''u1'' ''2024-01-02T09:00:00'' ex_draft_with_id,
      Add ''u2'' ''2024-03-05T18:00:00'' ex_draft_same_id]"

section \<open>Properties\<close>

subsection \<open>Sorting\<close>

lemma mset_sorted_reverse: "mset (sorted_reverse key xs) = mset xs"
  by (simp add: sorted_reverse_def)

lemma sorted_sorted_reverse: "sorted (rev (map key (sorted_reverse key xs)))"
  by (simp add: sorted_reverse_def rev_map)

lemma filter_sorted_reverse:
  "filter (\<lambda>x. key x = k) (sorted_reverse key xs) = filter (\<lambda>x. key x = k) xs"
proof -
  have "filter (\<lambda>x. key x = k) (sorted_reverse key xs)
        = rev (filter (\<lambda>x. key x = k) (sort_key key (rev xs)))"
    by (simp add: sorted_reverse_def rev_filter)
  also have "\<dots> = rev (filter (\<lambda>x. key x = k) (rev xs))"
    by (simp only: sort_key_stable)
  also have "\<dots> = filter (\<lambda>x. key x = k) xs"
    by (simp add: rev_filter)
  finally show ?thesis .
qed

lemma order_by_desc_eq: "order_by_desc key xs = sorted_reverse key xs"
  by (simp add: order_by_desc_def sorted_reverse_def)

lemma map_insort_key: "map f (insort_key (\<lambda>x. k (f x)) a xs) = insort_key k (f a) (map f xs)"
  by (induction xs) auto

lemma map_sort_key: "map f (sort_key (\<lambda>x. k (f x)) xs) = sort_key k (map f xs)"
  by (induction xs) (auto simp: map_insort_key)

lemma map_sorted_reverse:
  "map f (sorted_reverse (\<lambda>x. k (f x)) xs) = sorted_reverse k (map f xs)"
proof -
  have "map f (sorted_reverse (\<lambda>x. k (f x)) xs)
        = rev (map f (sort_key (\<lambda>x. k (f x)) (rev xs)))"
    by (simp add: sorted_reverse_def rev_map)
  also have "\<dots> = rev (sort_key k (map f (rev xs)))"
    by (simp only: map_sort_key)
  also have "\<dots> = sorted_reverse k (map f xs)"
    by (simp add: sorted_reverse_def rev_map)
  finally show ?thesis .
qed

subsection \<open>Joining and splitting the tags\<close>

lemma str_split_no_sep: "c \<notin> set s \<Longrightarrow> str_split s c = [s]"
  by (induction s) auto

lemma str_split_append_sep:
  "c \<notin> set s \<Longrightarrow> str_split (s @ c # rest) c = s # str_split rest c"
  by (induction s) auto

lemma str_split_join:
  "ts \<noteq> [] \<Longrightarrow> \<forall>t\<in>set ts. c \<notin> set t \<Longrightarrow> str_split (str_join [c] ts) c = ts"
proof (induction "[c]" ts rule: str_join.induct)
  case 1
  then show ?case by simp
next
  case (2 x)
  then show ?case by (simp add: str_split_no_sep)
next
  case (3 x y ys)
  then show ?case by (simp add: str_split_append_sep)
qed

lemma str_join_Nil_iff:
  "str_join sep ts = [] \<longleftrightarrow> ts = [] \<or> ts = [[]] \<or> (sep = [] \<and> (\<forall>t\<in>set ts. t = []))"
  by (induction sep ts rule: str_join.induct) auto

lemma tags_roundtrip:
  assumes "tags_portable ts"
  shows "(if str_join '','' ts \<noteq> [] then str_split (str_join '','' ts) CHR '','' else []) = ts"
proof (cases "ts = []")
  case True
  then show ?thesis by simp
next
  case False
  with assms have "str_join '','' ts \<noteq> []"
    by (simp add: str_join_Nil_iff tags_portable_def)
  moreover from assms False have "str_split (str_join '','' ts) CHR '','' = ts"
    by (intro str_split_join) (auto simp: tags_portable_def list_all_iff)
  ultimately show ?thesis by simp
qed

subsection \<open>Search order of the JSON backend\<close>

text \<open>
  Claim C9. In the JSON backend the result of \<open>search_entries\<close> is sorted by date,
  newest date first, and the entries of the result that share a date come in the order
  they have in the stored list: for every date \<open>d\<close>, the entries of the result dated \<open>d\<close>
  are the matching entries of the document dated \<open>d\<close>, in document order.
\<close>

theorem json_search_entries_stable:
  "filter (\<lambda>e. date e = d) (json_search_entries doc keyword)
     = filter (\<lambda>e. date e = d) (filter (json_matches (lower keyword)) doc)
   \<and> sorted (rev (map date (json_search_entries doc keyword)))"
  by (simp only: json_search_entries_def Let_def filter_sorted_reverse sorted_sorted_reverse)

subsection \<open>Deleting\<close>

lemma filter_neq_id: "\<not> list_ex (\<lambda>x. f x = k) xs \<Longrightarrow> filter (\<lambda>x. f x \<noteq> k) xs = xs"
  by (induction xs) auto

lemma length_filter_neq: "length (filter (\<lambda>x. f x \<noteq> k) xs) = length xs \<longleftrightarrow> \<not> list_ex (\<lambda>x. f x = k) xs"
proof (induction xs)
  case Nil
  then show ?case by simp
next
  case (Cons x xs)
  have neq: "length (filter (\<lambda>x. f x \<noteq> k) xs) \<noteq> Suc (length xs)"
    using length_filter_le[of "\<lambda>x. f x \<noteq> k" xs] by linarith
  show ?case
  proof (cases "f x = k")
    case True
    with neq show ?thesis by simp
  next
    case False
    with Cons show ?thesis by simp
  qed
qed

lemma list_ex_filter_neq: "\<not> list_ex (\<lambda>x. f x = k) (filter (\<lambda>x. f x \<noteq> k) xs)"
  by (induction xs) auto

lemma find_None_list_ex: "find P xs = None \<longleftrightarrow> \<not> list_ex P xs"
  by (induction xs) auto

lemma sqlite_get_entry_None: "sqlite_get_entry db eid = None \<longleftrightarrow> \<not> list_ex (\<lambda>r. row_id r = eid) db"
  by (simp add: sqlite_get_entry_def find_None_list_ex)

lemma json_get_entry_None: "json_get_entry doc eid = None \<longleftrightarrow> \<not> list_ex (\<lambda>e. entry_id e = eid) doc"
  by (simp add: json_get_entry_def find_None_list_ex)

lemma sqlite_delete_present:
  "sqlite_get_entry db eid \<noteq> None \<Longrightarrow>
   fst (sqlite_delete_entry db eid) \<and> sqlite_get_entry (snd (sqlite_delete_entry db eid)) eid = None"
  by (simp add: sqlite_get_entry_None sqlite_delete_entry_def list_ex_filter_neq)

lemma sqlite_delete_absent:
  "sqlite_get_entry db eid = None \<Longrightarrow> sqlite_delete_entry db eid = (False, db)"
  by (simp add: sqlite_get_entry_None sqlite_delete_entry_def filter_neq_id)

lemma json_delete_present:
  "json_get_entry doc eid \<noteq> None \<Longrightarrow>
   fst (json_delete_entry doc eid) \<and> json_get_entry (snd (json_delete_entry doc eid)) eid = None"
  by (simp add: json_get_entry_None json_delete_entry_def Let_def length_filter_neq
        list_ex_filter_neq)

lemma json_delete_absent:
  "json_get_entry doc eid = None \<Longrightarrow> json_delete_entry doc eid = (False, doc)"
  by (simp add: json_get_entry_None json_delete_entry_def Let_def length_filter_neq)

lemma json_delete_snd:
  "snd (json_delete_entry doc eid) = filter (\<lambda>e. entry_id e \<noteq> eid) doc"
proof (cases "list_ex (\<lambda>e. entry_id e = eid) doc")
  case True
  then show ?thesis by (simp add: json_delete_entry_def Let_def length_filter_neq)
next
  case False
  then show ?thesis by (simp add: json_delete_entry_def Let_def length_filter_neq filter_neq_id)
qed

text \<open>
  Claim C6. In both backends \<open>delete_entry\<close> on an id that \<open>get_entry\<close> finds returns
  true and leaves a store in which \<open>get_entry\<close> no longer finds the id; on an id that
  \<open>get_entry\<close> does not find it returns false and leaves the store as it was. In either
  case the store after the call holds the entries with another id, all of them and in
  their order.
\<close>

theorem delete_entry_semantics:
  "(sqlite_get_entry db eid \<noteq> None \<longrightarrow>
      fst (sqlite_delete_entry db eid)
      \<and> sqlite_get_entry (snd (sqlite_delete_entry db eid)) eid = None)
   \<and> (sqlite_get_entry db eid = None \<longrightarrow> sqlite_delete_entry db eid = (False, db))
   \<and> (json_get_entry doc eid \<noteq> None \<longrightarrow>
      fst (json_delete_entry doc eid)
      \<and> json_get_entry (snd (json_delete_entry doc eid)) eid = None)
   \<and> (json_get_entry doc eid = None \<longrightarrow> json_delete_entry doc eid = (False, doc))
   \<and> snd (sqlite_delete_entry db eid) = filter (\<lambda>r. row_id r \<noteq> eid) db
   \<and> snd (json_delete_entry doc eid) = filter (\<lambda>e. entry_id e \<noteq> eid) doc"
proof -
  have "snd (sqlite_delete_entry db eid) = filter (\<lambda>r. row_id r \<noteq> eid) db"
    by (simp add: sqlite_delete_entry_def)
  with sqlite_delete_present sqlite_delete_absent json_delete_present json_delete_absent
    json_delete_snd
  show ?thesis by blast
qed

theorem delete_entry_semantics_witness:
  "sqlite_get_entry [ex_row] ''a1'' \<noteq> None
   \<and> sqlite_delete_entry [ex_row] ''a1'' = (True, [])
   \<and> sqlite_get_entry [] ''a1'' = None
   \<and> sqlite_get_entry [ex_row] ''zz'' = None
   \<and> sqlite_delete_entry [ex_row] ''zz'' = (False, [ex_row])
   \<and> json_get_entry [ex_entry] ''a1'' \<noteq> None
   \<and> json_delete_entry [ex_entry] ''a1'' = (True, [])
   \<and> json_get_entry [ex_entry] ''zz'' = None
   \<and> json_delete_entry [ex_entry] ''zz'' = (False, [ex_entry])"
proof -
  have a: "sqlite_get_entry [ex_row] ''a1'' \<noteq> None"
    by (simp add: sqlite_get_entry_def ex_row_def)
  have b: "sqlite_get_entry [ex_row] ''zz'' = None"
    by (simp add: sqlite_get_entry_def ex_row_def)
  have c: "json_get_entry [ex_entry] ''a1'' \<noteq> None"
    by (simp add: json_get_entry_def ex_entry_def)
  have d: "json_get_entry [ex_entry] ''zz'' = None"
    by (simp add: json_get_entry_def ex_entry_def)
  have e: "snd (sqlite_delete_entry [ex_row] ''a1'') = []"
    by (simp add: sqlite_delete_entry_def ex_row_def)
  have f: "snd (json_delete_entry [ex_entry] ''a1'') = []"
    by (simp add: json_delete_entry_def ex_entry_def)
  note present = delete_entry_semantics[of "[ex_row]" "''a1''" "[ex_entry]"]
  note absent = delete_entry_semantics[of "[ex_row]" "''zz''" "[ex_entry]"]
  from a c present have g: "fst (sqlite_delete_entry [ex_row] ''a1'')"
    "fst (json_delete_entry [ex_entry] ''a1'')"
    by blast+
  from b d absent have h: "sqlite_delete_entry [ex_row] ''zz'' = (False, [ex_row])"
    "json_delete_entry [ex_entry] ''zz'' = (False, [ex_entry])"
    by blast+
  have i: "sqlite_get_entry [] ''a1'' = None"
    using a present e by simp
  from a b c d e f g h i show ?thesis by (simp add: prod_eq_iff)
qed

subsection \<open>Adding\<close>

text \<open>
  Claim C7, as stated, fails: a draft with a date whose \<open>"id"\<close> is the id of a stored row is
  refused by the \<open>PRIMARY KEY\<close> of the SQLite table.
\<close>

theorem sqlite_add_entry_duplicate_id:
  "d_date ex_draft_with_id = Some ''2024-01-02''
   \<and> sqlite_add_entry ''u7'' ''2024-01-02T09:00:00'' [ex_row] ex_draft_with_id = Inl IntegrityError"
  by (simp add: sqlite_add_entry_def ex_draft_with_id_def ex_row_def dict_get_def)

text \<open>
  Claim C7, amended. A draft with a date is always accepted by the JSON backend. The SQLite
  backend accepts it when no stored row has the id the entry is to get (the \<open>"id"\<close> of
  the draft, or else the generated one) and raises \<open>IntegrityError\<close> otherwise. A draft
  without a date raises \<open>KeyError\<close> (the spec's InvalidInput) in both backends.
\<close>

theorem add_entry_outcome:
  "(d_date entry = Some d \<longrightarrow>
      (\<exists>res. json_add_entry uuid now doc entry = Inr res))
   \<and> (d_date entry = Some d \<and> sqlite_get_entry db (dict_get (d_id entry) uuid) = None \<longrightarrow>
      (\<exists>res. sqlite_add_entry uuid now db entry = Inr res))
   \<and> (d_date entry = Some d \<and> sqlite_get_entry db (dict_get (d_id entry) uuid) \<noteq> None \<longrightarrow>
      sqlite_add_entry uuid now db entry = Inl IntegrityError)
   \<and> (d_date entry = None \<longrightarrow>
      json_add_entry uuid now doc entry = Inl (KeyError ''date'')
      \<and> sqlite_add_entry uuid now db entry = Inl (KeyError ''date''))"
  by (simp add: json_add_entry_def sqlite_add_entry_def sqlite_get_entry_None Let_def)

theorem add_entry_outcome_witness:
  "d_date ex_draft = Some ''2024-01-02''
   \<and> sqlite_get_entry [ex_row] (dict_get (d_id ex_draft) ''u7'') = None
   \<and> (\<exists>res. json_add_entry ''u7'' ''2024-01-02T09:00:00'' [ex_entry] ex_draft = Inr res)
   \<and> (\<exists>res. sqlite_add_entry ''u7'' ''2024-01-02T09:00:00'' [ex_row] ex_draft = Inr res)
   \<and> d_date ex_draft_with_id = Some ''2024-01-02''
   \<and> sqlite_get_entry [ex_row] (dict_get (d_id ex_draft_with_id) ''u7'') \<noteq> None
   \<and> sqlite_add_entry ''u7'' ''2024-01-02T09:00:00'' [ex_row] ex_draft_with_id = Inl IntegrityError
   \<and> d_date ex_draft_no_date = None
   \<and> json_add_entry ''u7'' ''2024-01-02T09:00:00'' [ex_entry] ex_draft_no_date = Inl (KeyError ''date'')
   \<and> sqlite_add_entry ''u7'' ''2024-01-02T09:00:00'' [ex_row] ex_draft_no_date = Inl (KeyError ''date'')"
proof -
  have a: "d_date ex_draft = Some ''2024-01-02''" by (simp add: ex_draft_def)
  have b: "sqlite_get_entry [ex_row] (dict_get (d_id ex_draft) ''u7'') = None"
    by (simp add: sqlite_get_entry_def ex_draft_def ex_row_def dict_get_def)
  have c: "d_date ex_draft_with_id = Some ''2024-01-02''" by (simp add: ex_draft_with_id_def)
  have d: "sqlite_get_entry [ex_row] (dict_get (d_id ex_draft_with_id) ''u7'') \<noteq> None"
    by (simp add: sqlite_get_entry_def ex_draft_with_id_def ex_row_def dict_get_def)
  have e: "d_date ex_draft_no_date = None" by (simp add: ex_draft_no_date_def)
  from a b
    add_entry_outcome[of ex_draft "''2024-01-02''" "''u7''" "''2024-01-02T09:00:00''" "[ex_entry]" "[ex_row]"]
  have 1: "(\<exists>res. json_add_entry ''u7'' ''2024-01-02T09:00:00'' [ex_entry] ex_draft = Inr res)
   \<and> (\<exists>res. sqlite_add_entry ''u7'' ''2024-01-02T09:00:00'' [ex_row] ex_draft = Inr res)"
    by blast
  from c d
    add_entry_outcome[of ex_draft_with_id "''2024-01-02''" "''u7''" "''2024-01-02T09:00:00''" "[ex_entry]" "[ex_row]"]
  have 2: "sqlite_add_entry ''u7'' ''2024-01-02T09:00:00'' [ex_row] ex_draft_with_id = Inl IntegrityError"
    by blast
  from e
    add_entry_outcome[of ex_draft_no_date _ "''u7''" "''2024-01-02T09:00:00''" "[ex_entry]" "[ex_row]"]
  have 3: "json_add_entry ''u7'' ''2024-01-02T09:00:00'' [ex_entry] ex_draft_no_date = Inl (KeyError ''date'')
   \<and> sqlite_add_entry ''u7'' ''2024-01-02T09:00:00'' [ex_row] ex_draft_no_date = Inl (KeyError ''date'')"
    by blast
  from a b c d e 1 2 3 show ?thesis by blast
qed


text \<open>
  Claim C10, as stated, fails: the SQLite backend does not return a supplied id that is
  already the id of a row, and neither backend returns the supplied id of a draft that has
  no date.
\<close>

theorem add_entry_supplied_id_refused:
  "d_id ex_draft_same_id = Some ''a1''
   \<and> sqlite_add_entry ''u9'' ''2024-03-05T18:00:00'' [ex_row] ex_draft_same_id = Inl IntegrityError
   \<and> d_id ex_draft_no_date = Some ''b2''
   \<and> json_add_entry ''u9'' ''2024-03-05T18:00:00'' [] ex_draft_no_date = Inl (KeyError ''date'')"
  by (simp add: sqlite_add_entry_def json_add_entry_def ex_draft_same_id_def
        ex_draft_no_date_def ex_row_def dict_get_def)

text \<open>
  Claim C10, amended. For a draft with a date and an \<open>"id"\<close> key, the JSON backend returns
  the supplied id and appends an entry with that id; the SQLite backend does the same when
  no row has that id, and raises \<open>IntegrityError\<close> when one has. Without an \<open>"id"\<close> key
  the id returned and stored is the generated one.
\<close>

theorem add_entry_id:
  "(d_id entry = Some i \<and> d_date entry = Some d \<longrightarrow>
      (\<exists>e. json_add_entry uuid now doc entry = Inr (i, doc @ [e]) \<and> entry_id e = i)
      \<and> (sqlite_get_entry db i = None \<longrightarrow>
           (\<exists>r. sqlite_add_entry uuid now db entry = Inr (i, db @ [r]) \<and> row_id r = i))
      \<and> (sqlite_get_entry db i \<noteq> None \<longrightarrow>
           sqlite_add_entry uuid now db entry = Inl IntegrityError))
   \<and> (d_id entry = None \<and> d_date entry = Some d \<longrightarrow>
      (\<exists>e. json_add_entry uuid now doc entry = Inr (uuid, doc @ [e]) \<and> entry_id e = uuid)
      \<and> (sqlite_get_entry db uuid = None \<longrightarrow>
           (\<exists>r. sqlite_add_entry uuid now db entry = Inr (uuid, db @ [r]) \<and> row_id r = uuid)))"
  by (simp add: json_add_entry_def sqlite_add_entry_def sqlite_get_entry_None Let_def dict_get_def)

theorem add_entry_id_witness:
  "d_id ex_draft_with_id = Some ''a1'' \<and> d_date ex_draft_with_id = Some ''2024-01-02''
   \<and> sqlite_get_entry [] ''a1'' = None
   \<and> sqlite_get_entry [ex_row] ''a1'' \<noteq> None
   \<and> (\<exists>e. json_add_entry ''u7'' ''2024-01-02T09:00:00'' [ex_entry] ex_draft_with_id
              = Inr (''a1'', [ex_entry] @ [e]) \<and> entry_id e = ''a1'')
   \<and> (\<exists>r. sqlite_add_entry ''u7'' ''2024-01-02T09:00:00'' [] ex_draft_with_id
              = Inr (''a1'', [] @ [r]) \<and> row_id r = ''a1'')
   \<and> sqlite_add_entry ''u7'' ''2024-01-02T09:00:00'' [ex_row] ex_draft_with_id = Inl IntegrityError
   \<and> d_id ex_draft = None \<and> d_date ex_draft = Some ''2024-01-02''
   \<and> sqlite_get_entry [ex_row] ''u7'' = None
   \<and> (\<exists>e. json_add_entry ''u7'' ''2024-01-02T09:00:00'' [ex_entry] ex_draft
              = Inr (''u7'', [ex_entry] @ [e]) \<and> entry_id e = ''u7'')
   \<and> (\<exists>r. sqlite_add_entry ''u7'' ''2024-01-02T09:00:00'' [ex_row] ex_draft
              = Inr (''u7'', [ex_row] @ [r]) \<and> row_id r = ''u7'')"
proof -
  have a: "d_id ex_draft_with_id = Some ''a1'' \<and> d_date ex_draft_with_id = Some ''2024-01-02''"
    by (simp add: ex_draft_with_id_def)
  have b: "sqlite_get_entry [] ''a1'' = None"
    by (simp add: sqlite_get_entry_def)
  have c: "sqlite_get_entry [ex_row] ''a1'' \<noteq> None"
    by (simp add: sqlite_get_entry_def ex_row_def)
  have d: "d_id ex_draft = None \<and> d_date ex_draft = Some ''2024-01-02''"
    by (simp add: ex_draft_def)
  have e: "sqlite_get_entry [ex_row] ''u7'' = None"
    by (simp add: sqlite_get_entry_def ex_row_def)
  note w1 = add_entry_id[of ex_draft_with_id "''a1''" "''2024-01-02''" "''u7''"
      "''2024-01-02T09:00:00''" "[ex_entry]" "[]"]
  note w2 = add_entry_id[of ex_draft_with_id "''a1''" "''2024-01-02''" "''u7''"
      "''2024-01-02T09:00:00''" "[ex_entry]" "[ex_row]"]
  note w3 = add_entry_id[of ex_draft "''a1''" "''2024-01-02''" "''u7''"
      "''2024-01-02T09:00:00''" "[ex_entry]" "[ex_row]"]
  from a b w1 have 1: "(\<exists>e. json_add_entry ''u7'' ''2024-01-02T09:00:00'' [ex_entry] ex_draft_with_id
              = Inr (''a1'', [ex_entry] @ [e]) \<and> entry_id e = ''a1'')
   \<and> (\<exists>r. sqlite_add_entry ''u7'' ''2024-01-02T09:00:00'' [] ex_draft_with_id
              = Inr (''a1'', [] @ [r]) \<and> row_id r = ''a1'')"
    by blast
  from a c w2 have 2:
    "sqlite_add_entry ''u7'' ''2024-01-02T09:00:00'' [ex_row] ex_draft_with_id = Inl IntegrityError"
    by blast
  from d e w3 have 3: "(\<exists>e. json_add_entry ''u7'' ''2024-01-02T09:00:00'' [ex_entry] ex_draft
              = Inr (''u7'', [ex_entry] @ [e]) \<and> entry_id e = ''u7'')
   \<and> (\<exists>r. sqlite_add_entry ''u7'' ''2024-01-02T09:00:00'' [ex_row] ex_draft
              = Inr (''u7'', [ex_row] @ [r]) \<and> row_id r = ''u7'')"
    by blast
  from a b c d e 1 2 3 show ?thesis by blast
qed

subsection \<open>Adding, then reading back\<close>

lemma find_snoc_new: "find P xs = None \<Longrightarrow> P x \<Longrightarrow> find P (xs @ [x]) = Some x"
  by (induction xs) (auto split: if_splits)

lemma json_add_then_get_fresh:
  assumes "d_date D = Some d" and "json_get_entry doc (dict_get (d_id D) uuid) = None"
  shows "json_add_then_get uuid now doc D =
         Inr (Some \<lparr>entry_id = dict_get (d_id D) uuid, date = d,
                     title = dict_get (d_title D) [], body = dict_get (d_body D) [],
                     mood = dict_get (d_mood D) [], tags = dict_get (d_tags D) [],
                     created_at = now, updated_at = now\<rparr>)"
  using assms
  by (simp add: json_add_then_get_def json_add_entry_def json_get_entry_def Let_def find_snoc_new)

lemma sqlite_add_then_get_fresh:
  assumes "d_date D = Some d" and "sqlite_get_entry db (dict_get (d_id D) uuid) = None"
    and "tags_portable (dict_get (d_tags D) [])"
  shows "sqlite_add_then_get uuid now db D =
         Inr (Some \<lparr>entry_id = dict_get (d_id D) uuid, date = d,
                     title = dict_get (d_title D) [], body = dict_get (d_body D) [],
                     mood = dict_get (d_mood D) [], tags = dict_get (d_tags D) [],
                     created_at = now, updated_at = now\<rparr>)"
proof -
  from assms(2) have none: "find (\<lambda>r. row_id r = dict_get (d_id D) uuid) db = None"
    by (simp add: sqlite_get_entry_def)
  then have nex: "\<not> list_ex (\<lambda>r. row_id r = dict_get (d_id D) uuid) db"
    by (simp add: find_None_list_ex)
  show ?thesis
    using assms(1) nex tags_roundtrip[OF assms(3)]
    by (simp add: sqlite_add_then_get_def sqlite_add_entry_def sqlite_get_entry_def Let_def
          find_snoc_new[OF none] row_to_entry_def split: if_splits)
qed

text \<open>
  Claim C4, amended. Let the draft have a date, and let no stored entry have the id the new
  entry is to get. Then \<open>get_entry(add_entry(D))\<close> is the entry with that id, the date of the
  draft, its title, body, mood and tags (empty where the key is missing) and both timestamps
  equal to the clock reading; in the SQLite backend provided that no tag contains a comma
  and the tag list is not the single empty tag.
\<close>

theorem add_get_roundtrip:
  "d_date D = Some d \<longrightarrow>
     (json_get_entry doc (dict_get (d_id D) uuid) = None \<longrightarrow>
        json_add_then_get uuid now doc D =
          Inr (Some \<lparr>entry_id = dict_get (d_id D) uuid, date = d,
                      title = dict_get (d_title D) [], body = dict_get (d_body D) [],
                      mood = dict_get (d_mood D) [], tags = dict_get (d_tags D) [],
                      created_at = now, updated_at = now\<rparr>))
     \<and> (sqlite_get_entry db (dict_get (d_id D) uuid) = None
          \<and> tags_portable (dict_get (d_tags D) []) \<longrightarrow>
        sqlite_add_then_get uuid now db D =
          Inr (Some \<lparr>entry_id = dict_get (d_id D) uuid, date = d,
                      title = dict_get (d_title D) [], body = dict_get (d_body D) [],
                      mood = dict_get (d_mood D) [], tags = dict_get (d_tags D) [],
                      created_at = now, updated_at = now\<rparr>))"
  using json_add_then_get_fresh sqlite_add_then_get_fresh by blast

theorem add_get_roundtrip_witness:
  "d_date ex_draft = Some ''2024-01-02''
   \<and> json_get_entry [ex_entry] (dict_get (d_id ex_draft) ''u7'') = None
   \<and> sqlite_get_entry [ex_row] (dict_get (d_id ex_draft) ''u7'') = None
   \<and> tags_portable (dict_get (d_tags ex_draft) [])
   \<and> json_add_then_get ''u7'' ''2024-01-02T09:00:00'' [ex_entry] ex_draft
       = Inr (Some \<lparr>entry_id = ''u7'', date = ''2024-01-02'', title = ''Second'', body = [],
                    mood = ''calm'', tags = [''x'', ''y''],
                    created_at = ''2024-01-02T09:00:00'', updated_at = ''2024-01-02T09:00:00''\<rparr>)
   \<and> sqlite_add_then_get ''u7'' ''2024-01-02T09:00:00'' [ex_row] ex_draft
       = Inr (Some \<lparr>entry_id = ''u7'', date = ''2024-01-02'', title = ''Second'', body = [],
                    mood = ''calm'', tags = [''x'', ''y''],
                    created_at = ''2024-01-02T09:00:00'', updated_at = ''2024-01-02T09:00:00''\<rparr>)"
proof -
  have a: "d_date ex_draft = Some ''2024-01-02''" by (simp add: ex_draft_def)
  have b: "json_get_entry [ex_entry] (dict_get (d_id ex_draft) ''u7'') = None"
    by (simp add: json_get_entry_def ex_draft_def ex_entry_def dict_get_def)
  have c: "sqlite_get_entry [ex_row] (dict_get (d_id ex_draft) ''u7'') = None"
    by (simp add: sqlite_get_entry_def ex_draft_def ex_row_def dict_get_def)
  have d: "tags_portable (dict_get (d_tags ex_draft) [])"
    by (simp add: tags_portable_def ex_draft_def dict_get_def)
  have e: "dict_get (d_id ex_draft) ''u7'' = ''u7''" "dict_get (d_title ex_draft) [] = ''Second''"
    "dict_get (d_body ex_draft) [] = []" "dict_get (d_mood ex_draft) [] = ''calm''"
    "dict_get (d_tags ex_draft) [] = [''x'', ''y'']"
    by (simp_all add: ex_draft_def dict_get_def)
  from a b c d
    add_get_roundtrip[of ex_draft "''2024-01-02''" "[ex_entry]" "''u7''" "''2024-01-02T09:00:00''" "[ex_row]"]
  show ?thesis by (simp add: e)
qed

text \<open>
  Claim C4, as stated, fails: the SQLite backend reads the tag \<open>a,b\<close> back as the two tags
  \<open>a\<close> and \<open>b\<close>, and in the JSON backend, after a draft is added under an id that is
  already stored, \<open>get_entry\<close> returns the older entry.
\<close>

theorem add_get_roundtrip_counterexample:
  "d_tags ex_draft_comma = Some [''a,b'']
   \<and> map_sum id (map_option tags) (sqlite_add_then_get ''u7'' ''2024-01-02T09:00:00'' [] ex_draft_comma)
       = Inr (Some [''a'', ''b''])
   \<and> d_title ex_draft_with_id = Some ''Second''
   \<and> map_sum id (map_option title) (json_add_then_get ''u7'' ''2024-01-02T09:00:00'' [ex_entry] ex_draft_with_id)
       = Inr (Some ''First'')"
  by (simp add: sqlite_add_then_get_def sqlite_add_entry_def sqlite_get_entry_def row_to_entry_def
        json_add_then_get_def json_add_entry_def json_get_entry_def Let_def
        ex_draft_comma_def ex_draft_with_id_def ex_entry_def dict_get_def)

subsection \<open>Entries of a date\<close>

text \<open>
  Both backends return exactly the entries of the date, and the SQLite backend returns them
  newest first.
\<close>

lemma get_entries_by_date_filter:
  "json_get_entries_by_date doc d = filter (\<lambda>e. date e = d) doc"
  "mset (sqlite_get_entries_by_date db d) = mset (filter (\<lambda>e. date e = d) (map row_to_entry db))"
  "sorted (rev (map created_at (sqlite_get_entries_by_date db d)))"
proof -
  show "json_get_entries_by_date doc d = filter (\<lambda>e. date e = d) doc"
    by (simp add: json_get_entries_by_date_def)
  show "mset (sqlite_get_entries_by_date db d) = mset (filter (\<lambda>e. date e = d) (map row_to_entry db))"
    by (simp add: sqlite_get_entries_by_date_def order_by_desc_eq mset_sorted_reverse
          filter_map comp_def row_to_entry_def)
  have "map created_at (sqlite_get_entries_by_date db d)
        = map row_created_at (sorted_reverse row_created_at (filter (\<lambda>r. row_date r = d) db))"
    by (simp add: sqlite_get_entries_by_date_def order_by_desc_eq row_to_entry_def comp_def)
  then show "sorted (rev (map created_at (sqlite_get_entries_by_date db d)))"
    by (simp only: sorted_sorted_reverse)
qed

text \<open>
  Claim C2. After two entries of the same date are added, the JSON backend lists them oldest
  first, where the SQLite backend lists them newest first.
\<close>

theorem json_get_entries_by_date_oldest_first:
  "map created_at (json_get_entries_by_date (json_run ex_ops_same_date []) ''2024-01-01'')
     = [''2024-01-01T08:00:00'', ''2024-01-01T21:30:00'']
   \<and> map created_at (sqlite_get_entries_by_date (sqlite_run ex_ops_same_date []) ''2024-01-01'')
     = [''2024-01-01T21:30:00'', ''2024-01-01T08:00:00'']"
  by (simp add: ex_ops_same_date_def json_get_entries_by_date_def json_add_entry_def
        sqlite_get_entries_by_date_def sqlite_add_entry_def order_by_desc_def row_to_entry_def
        dict_get_def Let_def)

subsection \<open>Updating\<close>

lemma json_update_absent:
  "json_get_entry doc eid = None \<Longrightarrow> json_update_entry now doc eid F = Inr (False, doc)"
  by (induction doc) (auto simp: json_get_entry_def split: if_splits)

lemma json_update_present:
  assumes "d_date F = Some d"
  shows "json_get_entry doc eid = Some old \<Longrightarrow>
     \<exists>doc'. json_update_entry now doc eid F = Inr (True, doc')
       \<and> length doc' = length doc
       \<and> json_get_entry doc' eid =
           Some (old\<lparr>date := d, title := dict_get (d_title F) [], body := dict_get (d_body F) [],
                     mood := dict_get (d_mood F) [], tags := dict_get (d_tags F) [],
                     updated_at := now\<rparr>)"
proof (induction doc)
  case Nil
  then show ?case by (simp add: json_get_entry_def)
next
  case (Cons e es)
  show ?case
  proof (cases "entry_id e = eid")
    case True
    with Cons.prems assms show ?thesis by (simp add: json_get_entry_def)
  next
    case False
    with Cons.prems have "json_get_entry es eid = Some old" by (simp add: json_get_entry_def)
    from Cons.IH[OF this] obtain doc' where
      "json_update_entry now es eid F = Inr (True, doc')" "length doc' = length es"
      "json_get_entry doc' eid =
           Some (old\<lparr>date := d, title := dict_get (d_title F) [], body := dict_get (d_body F) [],
                     mood := dict_get (d_mood F) [], tags := dict_get (d_tags F) [],
                     updated_at := now\<rparr>)"
      by blast
    with False show ?thesis by (simp add: json_get_entry_def)
  qed
qed

lemma sqlite_update_absent:
  "d_date F = Some d \<Longrightarrow> sqlite_get_entry db eid = None \<Longrightarrow>
   sqlite_update_entry now db eid F = Inr (False, db)"
  by (simp add: sqlite_update_entry_def sqlite_get_entry_None)
     (induction db; simp)

lemma find_map_update:
  "(\<And>r. f (g r) = f r) \<Longrightarrow>
   find (\<lambda>r. f r = k) (map (\<lambda>r. if f r = k then g r else r) xs) = map_option g (find (\<lambda>r. f r = k) xs)"
  by (induction xs) auto

lemma sqlite_update_present:
  assumes "d_date F = Some d" and "sqlite_get_entry db eid = Some old"
    and "tags_portable (dict_get (d_tags F) [])"
  shows "\<exists>db'. sqlite_update_entry now db eid F = Inr (True, db')
       \<and> length db' = length db
       \<and> sqlite_get_entry db' eid =
           Some (old\<lparr>date := d, title := dict_get (d_title F) [], body := dict_get (d_body F) [],
                     mood := dict_get (d_mood F) [], tags := dict_get (d_tags F) [],
                     updated_at := now\<rparr>)"
proof -
  from assms(2) obtain r where r: "find (\<lambda>r. row_id r = eid) db = Some r" "old = row_to_entry r"
    by (auto simp: sqlite_get_entry_def)
  then have ex: "list_ex (\<lambda>r. row_id r = eid) db"
    using find_None_list_ex[of "\<lambda>r. row_id r = eid" db] by simp
  let ?g = "\<lambda>r. r\<lparr>row_date := d, row_title := dict_get (d_title F) [],
                    row_body := dict_get (d_body F) [], row_mood := dict_get (d_mood F) [],
                    row_tags := str_join '','' (dict_get (d_tags F) []), row_updated_at := now\<rparr>"
  have f: "find (\<lambda>r. row_id r = eid) (map (\<lambda>r. if row_id r = eid then ?g r else r) db)
           = map_option ?g (find (\<lambda>r. row_id r = eid) db)"
    by (rule find_map_update) simp
  have g: "row_to_entry (?g r) =
           (row_to_entry r)\<lparr>date := d, title := dict_get (d_title F) [], body := dict_get (d_body F) [],
                     mood := dict_get (d_mood F) [], tags := dict_get (d_tags F) [],
                     updated_at := now\<rparr>"
    using tags_roundtrip[OF assms(3)] by (simp add: row_to_entry_def split: if_splits)
  show ?thesis
    using assms(1) ex r g by (simp add: sqlite_update_entry_def sqlite_get_entry_def f)
qed

text \<open>
  Claim C5, amended. Let \<open>F\<close> contain a date. If \<open>get_entry\<close> finds the id, \<open>update_entry\<close>
  returns true and \<open>get_entry\<close> then returns the old entry with date, title, body, mood and
  tags replaced by the values of \<open>F\<close> (empty where the key is missing), \<open>updated_at\<close> set to
  the clock reading of the call, and id and \<open>created_at\<close> as they were; in the SQLite
  backend provided that no tag of \<open>F\<close> contains a comma and the tag list is not the single
  empty tag. If \<open>get_entry\<close> does not find the id, \<open>update_entry\<close> returns false and the
  store is unchanged. The new \<open>updated_at\<close> is the clock reading, so it is at least the
  previous one exactly when the clock has not gone back.
\<close>

theorem update_entry_semantics:
  "d_date F = Some d \<longrightarrow>
     (json_get_entry doc eid = Some old \<longrightarrow>
        json_update_then_get now doc eid F =
          Inr (True, Some (old\<lparr>date := d, title := dict_get (d_title F) [],
                               body := dict_get (d_body F) [], mood := dict_get (d_mood F) [],
                               tags := dict_get (d_tags F) [], updated_at := now\<rparr>)))
     \<and> (json_get_entry doc eid = None \<longrightarrow> json_update_entry now doc eid F = Inr (False, doc))
     \<and> (sqlite_get_entry db eid = Some old \<and> tags_portable (dict_get (d_tags F) []) \<longrightarrow>
        sqlite_update_then_get now db eid F =
          Inr (True, Some (old\<lparr>date := d, title := dict_get (d_title F) [],
                               body := dict_get (d_body F) [], mood := dict_get (d_mood F) [],
                               tags := dict_get (d_tags F) [], updated_at := now\<rparr>)))
     \<and> (sqlite_get_entry db eid = None \<longrightarrow> sqlite_update_entry now db eid F = Inr (False, db))"
proof (intro impI conjI)
  assume d: "d_date F = Some d"
  { assume "json_get_entry doc eid = Some old"
    from json_update_present[OF d this, of now]
    show "json_update_then_get now doc eid F =
          Inr (True, Some (old\<lparr>date := d, title := dict_get (d_title F) [],
                               body := dict_get (d_body F) [], mood := dict_get (d_mood F) [],
                               tags := dict_get (d_tags F) [], updated_at := now\<rparr>))"
      by (auto simp: json_update_then_get_def) }
  { assume "json_get_entry doc eid = None"
    then show "json_update_entry now doc eid F = Inr (False, doc)"
      by (rule json_update_absent) }
  { assume "sqlite_get_entry db eid = Some old \<and> tags_portable (dict_get (d_tags F) [])"
    then have "sqlite_get_entry db eid = Some old" "tags_portable (dict_get (d_tags F) [])"
      by simp_all
    from sqlite_update_present[OF d this, of now]
    show "sqlite_update_then_get now db eid F =
          Inr (True, Some (old\<lparr>date := d, title := dict_get (d_title F) [],
                               body := dict_get (d_body F) [], mood := dict_get (d_mood F) [],
                               tags := dict_get (d_tags F) [], updated_at := now\<rparr>))"
      by (auto simp: sqlite_update_then_get_def) }
  { assume "sqlite_get_entry db eid = None"
    with d show "sqlite_update_entry now db eid F = Inr (False, db)"
      by (rule sqlite_update_absent) }
qed


text \<open>
  Claim C5, as stated, fails in three ways: the SQLite backend reads the tag \<open>a,b\<close> of an
  update back as two tags; an update made while the clock shows an earlier time than the
  stored \<open>updated_at\<close> lowers \<open>updated_at\<close>; and in the SQLite backend an update without
  a date raises \<open>KeyError\<close> also when the id is not stored.
\<close>

theorem update_entry_semantics_counterexample:
  "d_tags ex_update_comma = Some [''a,b'']
   \<and> map_sum id (map_prod id (map_option tags))
         (sqlite_update_then_get ''2024-01-03T12:00:00'' [ex_row] ''a1'' ex_update_comma)
       = Inr (True, Some [''a'', ''b''])
   \<and> map_sum id (map_prod id (map_option updated_at))
         (json_update_then_get ''2023-12-31T23:00:00'' [ex_entry] ''a1'' ex_update)
       = Inr (True, Some ''2023-12-31T23:00:00'')
   \<and> ''2023-12-31T23:00:00'' < updated_at ex_entry
   \<and> sqlite_get_entry [ex_row] ''zz'' = None
   \<and> sqlite_update_entry ''2024-01-03T12:00:00'' [ex_row] ''zz'' ex_update_no_date
       = Inl (KeyError ''date'')"
  by (simp add: sqlite_update_then_get_def sqlite_update_entry_def sqlite_get_entry_def
        row_to_entry_def json_update_then_get_def json_get_entry_def
        ex_update_comma_def ex_update_def ex_update_no_date_def ex_row_def ex_entry_def
        dict_get_def)

theorem update_entry_semantics_witness:
  "d_date ex_update = Some ''2024-01-05''
   \<and> json_get_entry [ex_entry] ''a1'' = Some ex_entry
   \<and> json_update_then_get ''2024-01-03T12:00:00'' [ex_entry] ''a1'' ex_update
       = Inr (True, Some \<lparr>entry_id = ''a1'', date = ''2024-01-05'', title = ''Edited'', body = [],
                    mood = ''sad'', tags = [''x''],
                    created_at = ''2024-01-01T10:00:00'', updated_at = ''2024-01-03T12:00:00''\<rparr>)
   \<and> json_get_entry [ex_entry] ''zz'' = None
   \<and> json_update_entry ''2024-01-03T12:00:00'' [ex_entry] ''zz'' ex_update = Inr (False, [ex_entry])
   \<and> sqlite_get_entry [ex_row] ''a1'' = Some ex_entry
   \<and> tags_portable (dict_get (d_tags ex_update) [])
   \<and> sqlite_update_then_get ''2024-01-03T12:00:00'' [ex_row] ''a1'' ex_update
       = Inr (True, Some \<lparr>entry_id = ''a1'', date = ''2024-01-05'', title = ''Edited'', body = [],
                    mood = ''sad'', tags = [''x''],
                    created_at = ''2024-01-01T10:00:00'', updated_at = ''2024-01-03T12:00:00''\<rparr>)
   \<and> sqlite_get_entry [ex_row] ''zz'' = None
   \<and> sqlite_update_entry ''2024-01-03T12:00:00'' [ex_row] ''zz'' ex_update = Inr (False, [ex_row])"
proof -
  have a: "d_date ex_update = Some ''2024-01-05''" by (simp add: ex_update_def)
  have b: "json_get_entry [ex_entry] ''a1'' = Some ex_entry"
    by (simp add: json_get_entry_def ex_entry_def)
  have c: "json_get_entry [ex_entry] ''zz'' = None"
    by (simp add: json_get_entry_def ex_entry_def)
  have d: "sqlite_get_entry [ex_row] ''a1'' = Some ex_entry"
    by (simp add: sqlite_get_entry_def row_to_entry_def ex_row_def ex_entry_def)
  have e: "sqlite_get_entry [ex_row] ''zz'' = None"
    by (simp add: sqlite_get_entry_def ex_row_def)
  have f: "tags_portable (dict_get (d_tags ex_update) [])"
    by (simp add: tags_portable_def ex_update_def dict_get_def)
  have g: "ex_entry\<lparr>date := ''2024-01-05'', title := dict_get (d_title ex_update) [],
                      body := dict_get (d_body ex_update) [], mood := dict_get (d_mood ex_update) [],
                      tags := dict_get (d_tags ex_update) [], updated_at := ''2024-01-03T12:00:00''\<rparr>
           = \<lparr>entry_id = ''a1'', date = ''2024-01-05'', title = ''Edited'', body = [],
                    mood = ''sad'', tags = [''x''],
                    created_at = ''2024-01-01T10:00:00'', updated_at = ''2024-01-03T12:00:00''\<rparr>"
    by (simp add: ex_entry_def ex_update_def dict_get_def)
  from a b d f
    update_entry_semantics[of ex_update "''2024-01-05''" "[ex_entry]" "''a1''" ex_entry
      "''2024-01-03T12:00:00''" "[ex_row]"]
  have 1: "json_update_then_get ''2024-01-03T12:00:00'' [ex_entry] ''a1'' ex_update
       = Inr (True, Some \<lparr>entry_id = ''a1'', date = ''2024-01-05'', title = ''Edited'', body = [],
                    mood = ''sad'', tags = [''x''],
                    created_at = ''2024-01-01T10:00:00'', updated_at = ''2024-01-03T12:00:00''\<rparr>)"
    and 2: "sqlite_update_then_get ''2024-01-03T12:00:00'' [ex_row] ''a1'' ex_update
       = Inr (True, Some \<lparr>entry_id = ''a1'', date = ''2024-01-05'', title = ''Edited'', body = [],
                    mood = ''sad'', tags = [''x''],
                    created_at = ''2024-01-01T10:00:00'', updated_at = ''2024-01-03T12:00:00''\<rparr>)"
    by (simp_all add: g)
  from a c e
    update_entry_semantics[of ex_update "''2024-01-05''" "[ex_entry]" "''zz''" ex_entry
      "''2024-01-03T12:00:00''" "[ex_row]"]
  have 3: "json_update_entry ''2024-01-03T12:00:00'' [ex_entry] ''zz'' ex_update = Inr (False, [ex_entry])"
    and 4: "sqlite_update_entry ''2024-01-03T12:00:00'' [ex_row] ''zz'' ex_update = Inr (False, [ex_row])"
    by simp_all
  from a b c d e f 1 2 3 4 show ?thesis by simp
qed

subsection \<open>Timestamps\<close>

text \<open>
  An entry of the store after one operation is an entry of the store before it, or it
  carries the clock reading of the operation as \<open>updated_at\<close> and, as \<open>created_at\<close>, that
  reading or the \<open>created_at\<close> of an entry of the store before.
\<close>

lemma sqlite_step_stamps:
  assumes "r' \<in> set (sqlite_step x db)"
  shows "r' \<in> set db
     \<or> (\<exists>now\<in>set (clock_readings [x]). row_updated_at r' = now
          \<and> (row_created_at r' = now \<or> (\<exists>r\<in>set db. row_created_at r' = row_created_at r)))"
proof (cases x)
  case (Add uuid now entry)
  with assms show ?thesis
    by (auto simp: sqlite_add_entry_def Let_def split: option.splits if_splits)
next
  case (Update now eid updated)
  with assms show ?thesis
    by (auto simp: sqlite_update_entry_def split: option.splits if_splits)
next
  case (Delete eid)
  with assms show ?thesis by (auto simp: sqlite_delete_entry_def)
qed

lemma json_update_stamps:
  "json_update_entry now doc eid F = Inr (found, doc') \<Longrightarrow> e' \<in> set doc' \<Longrightarrow>
   e' \<in> set doc \<or> (updated_at e' = now \<and> (\<exists>e\<in>set doc. created_at e' = created_at e))"
proof (induction doc arbitrary: doc' found)
  case Nil
  then show ?case by simp
next
  case (Cons e es)
  show ?case
  proof (cases "entry_id e = eid")
    case True
    with Cons.prems show ?thesis by (auto split: option.splits)
  next
    case False
    with Cons.prems obtain es' where
      es': "json_update_entry now es eid F = Inr (found, es')" "doc' = e # es'"
      by (auto split: sum.splits)
    with Cons.prems(2) Cons.IH[OF es'(1)] show ?thesis by auto
  qed
qed

lemma json_step_stamps:
  assumes "e' \<in> set (json_step x doc)"
  shows "e' \<in> set doc
     \<or> (\<exists>now\<in>set (clock_readings [x]). updated_at e' = now
          \<and> (created_at e' = now \<or> (\<exists>e\<in>set doc. created_at e' = created_at e)))"
proof (cases x)
  case (Add uuid now entry)
  with assms show ?thesis
    by (auto simp: json_add_entry_def Let_def split: option.splits)
next
  case (Update now eid updated)
  show ?thesis
  proof (cases "json_update_entry now doc eid updated")
    case (Inl err)
    with Update assms show ?thesis by simp
  next
    case (Inr res)
    obtain found doc' where "res = (found, doc')" by (cases res)
    with Inr Update assms json_update_stamps[of now doc eid updated found doc' e']
    show ?thesis by auto
  qed
next
  case (Delete eid)
  with assms show ?thesis by (auto simp: json_delete_entry_def Let_def split: if_splits)
qed

lemma clock_readings_Cons: "clock_readings (x # xs) = clock_readings [x] @ clock_readings xs"
  by (cases x) simp_all

lemma fold_stamps:
  fixes c u :: "'a \<Rightarrow> string" and step :: "op \<Rightarrow> 'a list \<Rightarrow> 'a list"
  assumes step: "\<And>x s r'. r' \<in> set (step x s) \<Longrightarrow>
     r' \<in> set s \<or> (\<exists>now\<in>set (clock_readings [x]). u r' = now
          \<and> (c r' = now \<or> (\<exists>r\<in>set s. c r' = c r)))"
  shows "sorted (clock_readings ops) \<Longrightarrow>
   \<forall>r\<in>set s. c r \<le> u r \<and> (\<forall>n\<in>set (clock_readings ops). u r \<le> n) \<Longrightarrow>
   \<forall>r\<in>set (fold step ops s). c r \<le> u r"
proof (induction ops arbitrary: s)
  case Nil
  then show ?case by simp
next
  case (Cons x xs)
  have srt: "sorted (clock_readings [x] @ clock_readings xs)"
    using Cons.prems(1) by (simp only: clock_readings_Cons[of x xs])
  then have sxs: "sorted (clock_readings xs)"
    and le: "\<forall>a\<in>set (clock_readings [x]). \<forall>b\<in>set (clock_readings xs). a \<le> b"
    by (simp_all add: sorted_append)
  have inv: "\<forall>r\<in>set s. c r \<le> u r
      \<and> (\<forall>n\<in>set (clock_readings [x]) \<union> set (clock_readings xs). u r \<le> n)"
    using Cons.prems(2) by (simp only: clock_readings_Cons[of x xs] set_append)
  have "\<forall>r'\<in>set (step x s). c r' \<le> u r' \<and> (\<forall>n\<in>set (clock_readings xs). u r' \<le> n)"
  proof
    fix r' assume "r' \<in> set (step x s)"
    from step[OF this]
    show "c r' \<le> u r' \<and> (\<forall>n\<in>set (clock_readings xs). u r' \<le> n)"
    proof
      assume "r' \<in> set s"
      with inv show ?thesis by auto
    next
      assume "\<exists>now\<in>set (clock_readings [x]). u r' = now
          \<and> (c r' = now \<or> (\<exists>r\<in>set s. c r' = c r))"
      then obtain now where now: "now \<in> set (clock_readings [x])" "u r' = now"
        "c r' = now \<or> (\<exists>r\<in>set s. c r' = c r)"
        by blast
      from now(3) have "c r' \<le> now"
      proof
        assume "c r' = now" then show ?thesis by simp
      next
        assume "\<exists>r\<in>set s. c r' = c r"
        then obtain r where "r \<in> set s" "c r' = c r" by blast
        with inv now(1) have "c r' \<le> u r" "u r \<le> now"
          by auto
        then show ?thesis by (rule order_trans)
      qed
      with now(1,2) le show ?thesis by auto
    qed
  qed
  from Cons.IH[OF sxs this] show ?case by simp
qed

lemma sqlite_run_fold: "sqlite_run ops db = fold sqlite_step ops db"
  by (induction ops arbitrary: db) simp_all

lemma json_run_fold: "json_run ops doc = fold json_step ops doc"
  by (induction ops arbitrary: doc) simp_all

text \<open>
  Claim C8, amended. When the clock readings taken by the operations of a replay never
  decrease, every entry stored after the replay, started on an empty store, has
  \<open>created_at \<le> updated_at\<close>, in both backends.
\<close>

theorem created_at_le_updated_at:
  "sorted (clock_readings ops) \<longrightarrow>
     (\<forall>e\<in>set (json_run ops []). created_at e \<le> updated_at e)
     \<and> (\<forall>e\<in>set (map row_to_entry (sqlite_run ops [])). created_at e \<le> updated_at e)"
proof
  assume srt: "sorted (clock_readings ops)"
  have j: "\<forall>e\<in>set (fold json_step ops []). created_at e \<le> updated_at e"
    by (rule fold_stamps[where c = created_at and u = updated_at, OF json_step_stamps srt]) simp_all
  have s: "\<forall>r\<in>set (fold sqlite_step ops []). row_created_at r \<le> row_updated_at r"
    by (rule fold_stamps[where c = row_created_at and u = row_updated_at,
          OF sqlite_step_stamps srt]) simp_all
  from j s show "(\<forall>e\<in>set (json_run ops []). created_at e \<le> updated_at e)
     \<and> (\<forall>e\<in>set (map row_to_entry (sqlite_run ops [])). created_at e \<le> updated_at e)"
    by (simp add: json_run_fold sqlite_run_fold row_to_entry_def)
qed

text \<open>
  Claim C8, as stated, fails: an entry added while the clock shows 2024-01-02 and updated
  after the clock was set back to 2024-01-01 has \<open>updated_at\<close> before \<open>created_at\<close>.
\<close>

theorem created_at_le_updated_at_counterexample:
  "map created_at (json_run ex_ops_clock_back []) = [''2024-01-02T00:00:00'']
   \<and> map updated_at (json_run ex_ops_clock_back []) = [''2024-01-01T00:00:00'']
   \<and> map created_at (map row_to_entry (sqlite_run ex_ops_clock_back [])) = [''2024-01-02T00:00:00'']
   \<and> map updated_at (map row_to_entry (sqlite_run ex_ops_clock_back [])) = [''2024-01-01T00:00:00'']
   \<and> ''2024-01-01T00:00:00'' < ''2024-01-02T00:00:00''"
  by (simp add: ex_ops_clock_back_def json_add_entry_def sqlite_add_entry_def
        sqlite_update_entry_def row_to_entry_def dict_get_def Let_def)

theorem created_at_le_updated_at_witness:
  "sorted (clock_readings ex_ops)
   \<and> json_run ex_ops [] \<noteq> []
   \<and> sqlite_run ex_ops [] \<noteq> []
   \<and> list_all (\<lambda>e. created_at e \<le> updated_at e) (json_run ex_ops [])
   \<and> list_all (\<lambda>e. created_at e \<le> updated_at e) (map row_to_entry (sqlite_run ex_ops []))"
proof -
  have a: "sorted (clock_readings ex_ops)" by (simp add: ex_ops_def)
  have b: "json_run ex_ops [] \<noteq> []"
    by (simp add: ex_ops_def json_add_entry_def json_delete_entry_def dict_get_def Let_def)
  have c: "sqlite_run ex_ops [] \<noteq> []"
    by (simp add: ex_ops_def sqlite_add_entry_def sqlite_update_entry_def
          sqlite_delete_entry_def dict_get_def Let_def)
  from a b c created_at_le_updated_at[of ex_ops] show ?thesis
    unfolding list_all_iff by blast
qed

subsection \<open>Searching\<close>

text \<open>
  A pattern \<open>%kw%\<close> whose keyword has no wildcard matches the texts that contain the
  keyword, up to ASCII case.
\<close>

lemma pattern_compare_percent: "pattern_compare (CHR ''%'' # ps) s \<longleftrightarrow> (\<exists>u v. s = u @ v \<and> pattern_compare ps v)"
proof (induction s)
  case Nil
  then show ?case by simp
next
  case (Cons c cs)
  have "(\<exists>u v. c # cs = u @ v \<and> pattern_compare ps v)
        \<longleftrightarrow> pattern_compare ps (c # cs) \<or> (\<exists>u v. cs = u @ v \<and> pattern_compare ps v)"
    by (auto simp: Cons_eq_append_conv)
  with Cons show ?case by simp
qed

lemma pattern_compare_percent_only: "pattern_compare ''%'' s"
  by (induction s) auto

lemma pattern_compare_literal_prefix:
  "wildcard_free kw \<Longrightarrow> pattern_compare (kw @ ''%'') s \<longleftrightarrow> prefix (lower kw) (lower s)"
proof (induction kw arbitrary: s)
  case Nil
  then show ?case by (simp add: pattern_compare_percent_only lower_def)
next
  case (Cons p ps)
  then have wf: "wildcard_free ps" and p: "p \<noteq> CHR ''%''" "p \<noteq> CHR ''_''"
    by (auto simp: wildcard_free_def)
  show ?case
  proof (cases s)
    case Nil
    with p show ?thesis by (simp add: lower_def)
  next
    case (Cons c cs)
    have "pattern_compare ((p # ps) @ ''%'') (c # cs) \<longleftrightarrow> lower_chr p = lower_chr c \<and> pattern_compare (ps @ ''%'') cs"
      using p by simp
    also have "\<dots> \<longleftrightarrow> lower_chr p = lower_chr c \<and> prefix (lower ps) (lower cs)"
      by (simp only: Cons.IH[OF wf])
    also have "\<dots> \<longleftrightarrow> prefix (lower (p # ps)) (lower (c # cs))"
      by (simp add: lower_def)
    finally show ?thesis using Cons by simp
  qed
qed

lemma sublist_lower_iff:
  "sublist k (lower s) \<longleftrightarrow> (\<exists>u v. s = u @ v \<and> prefix k (lower v))"
proof
  assume "sublist k (lower s)"
  then obtain a b where ab: "map lower_chr s = a @ (k @ b)"
    unfolding sublist_def lower_def by auto
  from ab[unfolded map_eq_append_conv]
  obtain u v where "s = u @ v" "k @ b = map lower_chr v" by blast
  then have "s = u @ v \<and> prefix k (lower v)"
    by (metis lower_def prefixI)
  then show "\<exists>u v. s = u @ v \<and> prefix k (lower v)" by blast
next
  assume "\<exists>u v. s = u @ v \<and> prefix k (lower v)"
  then obtain u v b where "s = u @ v" "lower v = k @ b"
    unfolding prefix_def by blast
  then have "lower s = lower u @ k @ b" by (simp add: lower_def)
  then show "sublist k (lower s)" unfolding sublist_def by blast
qed

lemma pattern_compare_contains:
  assumes "wildcard_free kw"
  shows "pattern_compare (''%'' @ kw @ ''%'') s \<longleftrightarrow> sublist (lower kw) (lower s)"
proof -
  have "pattern_compare (''%'' @ kw @ ''%'') s \<longleftrightarrow> (\<exists>u v. s = u @ v \<and> pattern_compare (kw @ ''%'') v)"
    using pattern_compare_percent[of "kw @ ''%''" s] by simp
  also have "\<dots> \<longleftrightarrow> (\<exists>u v. s = u @ v \<and> prefix (lower kw) (lower v))"
    by (simp only: pattern_compare_literal_prefix[OF assms])
  also have "\<dots> \<longleftrightarrow> sublist (lower kw) (lower s)"
    by (simp only: sublist_lower_iff)
  finally show ?thesis .
qed

lemma c_string_id: "CHR 0x00 \<notin> set s \<Longrightarrow> c_string s = s"
  by (auto simp: c_string_def takeWhile_eq_all_conv)

lemma like_contains:
  assumes "wildcard_free kw" and "CHR 0x00 \<notin> set kw" and "CHR 0x00 \<notin> set s"
  shows "like (''%'' @ kw @ ''%'') s \<longleftrightarrow> sublist (lower kw) (lower s)"
proof -
  from assms(2) have "CHR 0x00 \<notin> set (''%'' @ kw @ ''%'')" by simp
  then have p: "c_string (''%'' @ kw @ ''%'') = ''%'' @ kw @ ''%''" by (rule c_string_id)
  from assms(3) have s: "c_string s = s" by (rule c_string_id)
  show ?thesis
    by (simp only: like_def p s pattern_compare_contains[OF assms(1)])
qed

text \<open>
  The column \<open>tags\<close> is the comma-joined tag list of the entry read from the row, and a
  keyword without a comma lies in the joined string if and only if it lies in one tag.
\<close>

lemma str_split_not_Nil: "str_split s c \<noteq> []"
  by (induction s) auto

lemma str_join_Cons_Cons: "str_join sep ((x # w) # ws) = x # str_join sep (w # ws)"
  by (cases ws) simp_all

lemma str_join_split: "str_join [c] (str_split s c) = s"
proof (induction s)
  case Nil
  then show ?case by simp
next
  case (Cons x xs)
  obtain w ws where w: "str_split xs c = w # ws"
    using str_split_not_Nil[of xs c] by (cases "str_split xs c") auto
  with Cons show ?case by (simp add: str_join_Cons_Cons)
qed

lemma row_tags_join: "row_tags r = str_join '','' (tags (row_to_entry r))"
  by (simp add: row_to_entry_def str_join_split)

lemma sublist_sep:
  assumes "k \<noteq> []" and "c \<notin> set k"
  shows "sublist k (x @ c # rest) \<longleftrightarrow> sublist k x \<or> sublist k rest"
proof -
  have pre: "\<not> prefix k (c # rest)"
    using assms by (cases k) auto
  have "sublist k (c # rest) \<longleftrightarrow> sublist k rest"
    using pre by (simp add: sublist_Cons_right)
  moreover have "(\<exists>k1 k2. k = k1 @ k2 \<and> suffix k1 x \<and> prefix k2 (c # rest)) \<longrightarrow> sublist k x"
  proof
    assume "\<exists>k1 k2. k = k1 @ k2 \<and> suffix k1 x \<and> prefix k2 (c # rest)"
    then obtain k1 k2 where k: "k = k1 @ k2" "suffix k1 x" "prefix k2 (c # rest)" by blast
    have "k2 = []"
    proof (cases k2)
      case Nil then show ?thesis .
    next
      case (Cons a as)
      with k(3) have "a = c" by simp
      with Cons k(1) assms(2) show ?thesis by simp
    qed
    with k show "sublist k x" by simp
  qed
  ultimately show ?thesis
    by (auto simp: sublist_append)
qed

lemma sublist_str_join:
  assumes "k \<noteq> []" and "c \<notin> set k"
  shows "sublist k (str_join [c] ts) \<longleftrightarrow> (\<exists>t\<in>set ts. sublist k t)"
proof (induction "[c]" ts rule: str_join.induct)
  case 1
  with assms show ?case by simp
next
  case (2 x)
  then show ?case by simp
next
  case (3 x y ys)
  then show ?case using sublist_sep[OF assms, of x "str_join [c] (y # ys)"] by simp
qed


lemma lower_chr_comma [simp]: "lower_chr CHR '','' = CHR '',''"
  by (simp add: lower_chr_def)

lemma lower_chr_eq_comma: "lower_chr x = CHR '','' \<Longrightarrow> x = CHR '',''"
proof (cases "map_of (zip ''ABCDEFGHIJKLMNOPQRSTUVWXYZ'' ''abcdefghijklmnopqrstuvwxyz'') x")
  case None
  assume "lower_chr x = CHR '',''"
  with None show ?thesis by (simp add: lower_chr_def)
next
  case (Some l)
  assume "lower_chr x = CHR '',''"
  with Some have "l = CHR '',''" by (simp add: lower_chr_def)
  moreover from Some have "l \<in> set ''abcdefghijklmnopqrstuvwxyz''"
    by (blast dest: map_of_SomeD set_zip_rightD)
  ultimately show ?thesis by simp
qed

lemma comma_notin_lower: "CHR '','' \<notin> set kw \<Longrightarrow> CHR '','' \<notin> set (lower kw)"
proof
  assume "CHR '','' \<notin> set kw" and "CHR '','' \<in> set (lower kw)"
  then obtain x where "x \<in> set kw" "lower_chr x = CHR '',''"
    by (auto simp: lower_def)
  with lower_chr_eq_comma[of x] \<open>CHR '','' \<notin> set kw\<close> show False by simp
qed

lemma lower_str_join: "lower (str_join '','' ts) = str_join '','' (map lower ts)"
  by (induction "'',''" ts rule: str_join.induct) (simp_all add: lower_def)

lemma sublist_lower_join:
  assumes "kw \<noteq> []" and "CHR '','' \<notin> set kw"
  shows "sublist (lower kw) (lower (str_join '','' ts)) \<longleftrightarrow> (\<exists>t\<in>set ts. sublist (lower kw) (lower t))"
proof -
  from assms(1) have ne: "lower kw \<noteq> []" by (simp add: lower_def)
  from sublist_str_join[OF ne comma_notin_lower[OF assms(2)], of "map lower ts"]
  show ?thesis by (simp add: lower_str_join)
qed


lemma sqlite_matches_iff:
  assumes "wildcard_free kw" and "CHR 0x00 \<notin> set kw" and "plain_row r"
  shows "sqlite_matches (''%'' @ kw @ ''%'') r \<longleftrightarrow>
         sublist (lower kw) (lower (title (row_to_entry r)))
         \<or> sublist (lower kw) (lower (body (row_to_entry r)))
         \<or> sublist (lower kw) (lower (str_join '','' (tags (row_to_entry r))))"
proof -
  have t: "title (row_to_entry r) = row_title r" "body (row_to_entry r) = row_body r"
    by (simp_all add: row_to_entry_def)
  from assms(3) have n: "CHR 0x00 \<notin> set (row_title r)" "CHR 0x00 \<notin> set (row_body r)"
    "CHR 0x00 \<notin> set (row_tags r)"
    by (simp_all add: plain_row_def plain_text_def)
  from t show ?thesis
    by (simp only: sqlite_matches_def like_contains[OF assms(1,2) n(1)]
          like_contains[OF assms(1,2) n(2)] like_contains[OF assms(1,2) n(3)]
          row_tags_join[symmetric])
qed

lemma sqlite_search_entries_Inr:
  "length kw \<le> 49998 \<Longrightarrow>
   sqlite_search_entries db kw =
     Inr (map row_to_entry
            (sorted_reverse row_date (filter (sqlite_matches (''%'' @ kw @ ''%'')) db)))"
  by (simp add: sqlite_search_entries_def like_pattern_limit_def order_by_desc_eq)

lemma sqlite_search_entries_too_long:
  "db \<noteq> [] \<Longrightarrow> 49998 < length kw \<Longrightarrow> sqlite_search_entries db kw = Inl OperationalError"
  by (simp add: sqlite_search_entries_def like_pattern_limit_def)

text \<open>A title is searched up to its first NUL character only.\<close>

lemma sqlite_search_entries_nul:
  "sqlite_search_entries [ex_row_nul] ''b'' = Inr []
   \<and> sqlite_search_entries [ex_row_nul] ''a'' = Inr [row_to_entry ex_row_nul]"
  by (simp add: sqlite_search_entries_def like_pattern_limit_def sqlite_matches_def like_def
        c_string_def order_by_desc_def ex_row_nul_def lower_chr_def)

lemma sqlite_search_rows_mset:
  assumes "wildcard_free kw" and "CHR 0x00 \<notin> set kw" and "list_all plain_row db"
  shows "mset (map row_to_entry
                 (sorted_reverse row_date (filter (sqlite_matches (''%'' @ kw @ ''%'')) db))) =
         mset (filter (\<lambda>e. sublist (lower kw) (lower (title e))
                          \<or> sublist (lower kw) (lower (body e))
                          \<or> sublist (lower kw) (lower (str_join '','' (tags e))))
                 (map row_to_entry db))"
proof -
  have "filter (sqlite_matches (''%'' @ kw @ ''%'')) db
        = filter (\<lambda>r. sublist (lower kw) (lower (title (row_to_entry r)))
                          \<or> sublist (lower kw) (lower (body (row_to_entry r)))
                          \<or> sublist (lower kw) (lower (str_join '','' (tags (row_to_entry r))))) db"
  proof (rule filter_cong[OF refl])
    fix r assume "r \<in> set db"
    with assms(3) have "plain_row r" by (simp add: list_all_iff)
    from sqlite_matches_iff[OF assms(1,2) this]
    show "sqlite_matches (''%'' @ kw @ ''%'') r =
          (sublist (lower kw) (lower (title (row_to_entry r)))
           \<or> sublist (lower kw) (lower (body (row_to_entry r)))
           \<or> sublist (lower kw) (lower (str_join '','' (tags (row_to_entry r)))))" .
  qed
  then show ?thesis by (simp add: mset_sorted_reverse filter_map comp_def)
qed

lemma sqlite_search_rows_sorted:
  "sorted (rev (map date (map row_to_entry (sorted_reverse row_date rows))))"
proof -
  have "map date (map row_to_entry (sorted_reverse row_date rows))
        = map row_date (sorted_reverse row_date rows)"
    by (simp add: row_to_entry_def comp_def)
  then show ?thesis by (simp only: sorted_sorted_reverse)
qed

lemma json_search_entries_mset:
  "mset (json_search_entries doc kw) =
   mset (filter (\<lambda>e. sublist (lower kw) (lower (title e))
                    \<or> sublist (lower kw) (lower (body e))
                    \<or> (\<exists>t\<in>set (tags e). sublist (lower kw) (lower t))) doc)"
  by (simp add: json_search_entries_def mset_sorted_reverse json_matches_def list_ex_iff)

lemma search_tags_iff:
  assumes "CHR '','' \<notin> set kw"
  shows "sublist (lower kw) (lower (title e)) \<or> sublist (lower kw) (lower (body e))
           \<or> sublist (lower kw) (lower (str_join '','' (tags e)))
     \<longleftrightarrow> sublist (lower kw) (lower (title e)) \<or> sublist (lower kw) (lower (body e))
           \<or> (\<exists>t\<in>set (tags e). sublist (lower kw) (lower t))"
proof (cases "kw = []")
  case True
  then show ?thesis by (simp add: lower_def)
next
  case False
  then show ?thesis by (simp only: sublist_lower_join[OF False assms])
qed

text \<open>
  Claim C3, amended. The statement is about ASCII text. In the JSON backend, when the
  keyword and the titles, bodies and tags of the stored entries are ASCII text,
  \<open>search_entries\<close> returns exactly the stored entries of which the lower-cased keyword is a
  substring of the lower-cased title, body or of some lower-cased tag, sorted by date,
  newest date first. In the SQLite backend, when the keyword and the titles, bodies and tag
  columns of the rows are ASCII text without a NUL character, and the keyword has at most
  49998 characters and neither of the wildcards \<open>%\<close> and \<open>_\<close>, \<open>search_entries\<close> raises no
  error and returns exactly the entries of which the lower-cased keyword is a substring of
  the lower-cased title, body or comma-joined tag string, sorted the same way; when the
  keyword has no comma either, that is the condition of the JSON backend.
\<close>

theorem search_entries_exact:
  "(ascii_text kw \<and> list_all ascii_entry doc \<longrightarrow>
      mset (json_search_entries doc kw) =
        mset (filter (\<lambda>e. sublist (lower kw) (lower (title e))
                         \<or> sublist (lower kw) (lower (body e))
                         \<or> (\<exists>t\<in>set (tags e). sublist (lower kw) (lower t))) doc)
      \<and> sorted (rev (map date (json_search_entries doc kw))))
   \<and> (plain_text kw \<and> wildcard_free kw \<and> length kw \<le> 49998 \<and> list_all plain_row db \<longrightarrow>
      (\<exists>res. sqlite_search_entries db kw = Inr res
         \<and> mset res =
             mset (filter (\<lambda>e. sublist (lower kw) (lower (title e))
                              \<or> sublist (lower kw) (lower (body e))
                              \<or> sublist (lower kw) (lower (str_join '','' (tags e))))
                     (map row_to_entry db))
         \<and> (CHR '','' \<notin> set kw \<longrightarrow>
              mset res =
                mset (filter (\<lambda>e. sublist (lower kw) (lower (title e))
                                 \<or> sublist (lower kw) (lower (body e))
                                 \<or> (\<exists>t\<in>set (tags e). sublist (lower kw) (lower t)))
                        (map row_to_entry db)))
         \<and> sorted (rev (map date res))))"
proof (intro conjI impI)
  show "mset (json_search_entries doc kw) =
        mset (filter (\<lambda>e. sublist (lower kw) (lower (title e))
                         \<or> sublist (lower kw) (lower (body e))
                         \<or> (\<exists>t\<in>set (tags e). sublist (lower kw) (lower t))) doc)"
    by (rule json_search_entries_mset)
  show "sorted (rev (map date (json_search_entries doc kw)))"
    by (simp only: json_search_entries_def Let_def sorted_sorted_reverse)
  assume "plain_text kw \<and> wildcard_free kw \<and> length kw \<le> 49998 \<and> list_all plain_row db"
  then have nul: "CHR 0x00 \<notin> set kw" and w: "wildcard_free kw" and len: "length kw \<le> 49998"
    and rows: "list_all plain_row db"
    by (simp_all add: plain_text_def)
  let ?res = "map row_to_entry
                (sorted_reverse row_date (filter (sqlite_matches (''%'' @ kw @ ''%'')) db))"
  have r: "sqlite_search_entries db kw = Inr ?res"
    using len by (rule sqlite_search_entries_Inr)
  have m: "mset ?res =
             mset (filter (\<lambda>e. sublist (lower kw) (lower (title e))
                              \<or> sublist (lower kw) (lower (body e))
                              \<or> sublist (lower kw) (lower (str_join '','' (tags e))))
                     (map row_to_entry db))"
    using w nul rows by (rule sqlite_search_rows_mset)
  have c: "CHR '','' \<notin> set kw \<longrightarrow>
              mset ?res =
                mset (filter (\<lambda>e. sublist (lower kw) (lower (title e))
                                 \<or> sublist (lower kw) (lower (body e))
                                 \<or> (\<exists>t\<in>set (tags e). sublist (lower kw) (lower t)))
                        (map row_to_entry db))"
  proof
    assume comma: "CHR '','' \<notin> set kw"
    show "mset ?res =
                mset (filter (\<lambda>e. sublist (lower kw) (lower (title e))
                                 \<or> sublist (lower kw) (lower (body e))
                                 \<or> (\<exists>t\<in>set (tags e). sublist (lower kw) (lower t)))
                        (map row_to_entry db))"
      by (simp only: m search_tags_iff[OF comma])
  qed
  have s: "sorted (rev (map date ?res))"
    by (rule sqlite_search_rows_sorted)
  from r m c s
  show "\<exists>res. sqlite_search_entries db kw = Inr res
         \<and> mset res =
             mset (filter (\<lambda>e. sublist (lower kw) (lower (title e))
                              \<or> sublist (lower kw) (lower (body e))
                              \<or> sublist (lower kw) (lower (str_join '','' (tags e))))
                     (map row_to_entry db))
         \<and> (CHR '','' \<notin> set kw \<longrightarrow>
              mset res =
                mset (filter (\<lambda>e. sublist (lower kw) (lower (title e))
                                 \<or> sublist (lower kw) (lower (body e))
                                 \<or> (\<exists>t\<in>set (tags e). sublist (lower kw) (lower t)))
                        (map row_to_entry db)))
         \<and> sorted (rev (map date res))"
    by blast
qed

text \<open>
  Claim C3, as stated, fails: for the keyword \<open>x,y\<close> the SQLite backend returns the entry
  with the tags \<open>x\<close> and \<open>y\<close>, though the keyword is in neither tag nor in the title or
  the body; the JSON backend returns nothing for the same entry.
\<close>

theorem search_entries_exact_counterexample:
  "sqlite_search_entries [ex_row] ''x,y'' = Inr [ex_entry]
   \<and> \<not> sublist (lower ''x,y'') (lower (title ex_entry))
   \<and> \<not> sublist (lower ''x,y'') (lower (body ex_entry))
   \<and> tags ex_entry = [''x'', ''y'']
   \<and> \<not> sublist (lower ''x,y'') (lower ''x'')
   \<and> \<not> sublist (lower ''x,y'') (lower ''y'')
   \<and> json_search_entries [ex_entry] ''x,y'' = []"
proof -
  have low: "lower ''x,y'' = ''x,y''" "lower ''First'' = ''first''" "lower ''hello'' = ''hello''"
    "lower ''x'' = ''x''" "lower ''y'' = ''y''"
    by (simp_all add: lower_def lower_chr_def)
  have a: "sqlite_search_entries [ex_row] ''x,y'' = Inr [ex_entry]"
    by (simp add: sqlite_search_entries_def like_pattern_limit_def sqlite_matches_def like_def
          c_string_def order_by_desc_def row_to_entry_def ex_row_def ex_entry_def lower_chr_def)
  have b: "\<not> sublist ''x,y'' ''first''" "\<not> sublist ''x,y'' ''hello''"
    "\<not> sublist ''x,y'' ''x''" "\<not> sublist ''x,y'' ''y''"
    by (simp_all add: sublist_code)
  have c: "json_search_entries [ex_entry] ''x,y'' = []"
    using b by (simp add: json_search_entries_def json_matches_def sorted_reverse_def
          ex_entry_def low)
  from a b c show ?thesis by (simp add: low ex_entry_def)
qed

theorem search_entries_exact_witness:
  "ascii_text ''Work'' \<and> list_all ascii_entry ex_search_doc
   \<and> plain_text ''Work'' \<and> wildcard_free ''Work'' \<and> length ''Work'' \<le> 49998
   \<and> list_all plain_row ex_search_db \<and> CHR '','' \<notin> set ''Work''
   \<and> mset (json_search_entries ex_search_doc ''Work'')
       = mset [ex_search_doc ! 0, ex_search_doc ! 1]
   \<and> sorted (rev (map date (json_search_entries ex_search_doc ''Work'')))
   \<and> (\<exists>res. sqlite_search_entries ex_search_db ''Work'' = Inr res
        \<and> mset res = mset [ex_search_doc ! 0, ex_search_doc ! 1]
        \<and> sorted (rev (map date res)))"
proof -
  have w: "wildcard_free ''Work''" "CHR '','' \<notin> set ''Work''" "length ''Work'' \<le> 49998"
    by (simp_all add: wildcard_free_def)
  have k: "ascii_text ''Work''" "plain_text ''Work''"
    by (simp_all add: ascii_text_def plain_text_def)
  have d: "list_all ascii_entry ex_search_doc"
    by (simp add: ex_search_doc_def ascii_entry_def ascii_text_def)
  have r: "list_all plain_row ex_search_db"
    by (simp add: ex_search_db_def plain_row_def plain_text_def ascii_text_def)
  have low: "lower ''Work'' = ''work''" "lower ''Sunny day'' = ''sunny day''"
    "lower ''Rainy'' = ''rainy''" "lower ''Worked late'' = ''worked late''"
    "lower ''Walk'' = ''walk''" "lower ''in the park'' = ''in the park''"
    "lower ''work'' = ''work''" "lower ''out'' = ''out''" "lower ''sun'' = ''sun''"
    "lower [] = []"
    by (simp_all add: lower_def lower_chr_def)
  have m: "map row_to_entry ex_search_db = ex_search_doc"
    by (simp add: ex_search_db_def ex_search_doc_def row_to_entry_def)
  have f: "filter (\<lambda>e. sublist (lower ''Work'') (lower (title e))
                      \<or> sublist (lower ''Work'') (lower (body e))
                      \<or> (\<exists>t\<in>set (tags e). sublist (lower ''Work'') (lower t))) ex_search_doc
           = [ex_search_doc ! 0, ex_search_doc ! 1]"
    by (simp add: ex_search_doc_def low sublist_code)
  note t = search_entries_exact[of "''Work''" ex_search_doc ex_search_db]
  from t k(1) d have j: "mset (json_search_entries ex_search_doc ''Work'')
        = mset (filter (\<lambda>e. sublist (lower ''Work'') (lower (title e))
                      \<or> sublist (lower ''Work'') (lower (body e))
                      \<or> (\<exists>t\<in>set (tags e). sublist (lower ''Work'') (lower t))) ex_search_doc)"
    and js: "sorted (rev (map date (json_search_entries ex_search_doc ''Work'')))"
    by blast+
  from t k(2) w r obtain res where res: "sqlite_search_entries ex_search_db ''Work'' = Inr res"
    "mset res = mset (filter (\<lambda>e. sublist (lower ''Work'') (lower (title e))
                      \<or> sublist (lower ''Work'') (lower (body e))
                      \<or> (\<exists>t\<in>set (tags e). sublist (lower ''Work'') (lower t)))
                 (map row_to_entry ex_search_db))"
    "sorted (rev (map date res))"
    by blast
  from res have "\<exists>res. sqlite_search_entries ex_search_db ''Work'' = Inr res
        \<and> mset res = mset [ex_search_doc ! 0, ex_search_doc ! 1]
        \<and> sorted (rev (map date res))"
    by (simp only: m f) blast
  with w k d r j js show ?thesis by (simp only: f) simp
qed

subsection \<open>The two backends side by side\<close>

text \<open>
  The table and the document are compared through \<^const>\<open>row_to_entry\<close>: the document is
  the list of the entries read from the rows, in the same order. A replay keeps that up as
  long as the tags survive the comma-joined column and no \<open>add_entry\<close> is refused by the
  \<open>PRIMARY KEY\<close>.
\<close>

lemma row_to_entry_sel [simp]:
  "entry_id (row_to_entry r) = row_id r" "date (row_to_entry r) = row_date r"
  "created_at (row_to_entry r) = row_created_at r"
  by (simp_all add: row_to_entry_def)

lemma list_entries_sim: "sqlite_list_entries db = json_list_entries (map row_to_entry db)"
proof -
  have "sqlite_list_entries db
        = map row_to_entry
            (sorted_reverse (\<lambda>r. (date (row_to_entry r), created_at (row_to_entry r))) db)"
    by (simp add: sqlite_list_entries_def order_by_desc_eq)
  also have "\<dots> = sorted_reverse (\<lambda>x. (date x, created_at x)) (map row_to_entry db)"
    using map_sorted_reverse[of row_to_entry "\<lambda>x. (date x, created_at x)" db] by simp
  finally show ?thesis by (simp only: json_list_entries_def)
qed

lemma json_update_no_date:
  "d_date F = None \<Longrightarrow>
   json_update_entry now doc eid F = Inl (KeyError ''date'')
   \<or> json_update_entry now doc eid F = Inr (False, doc)"
  by (induction doc) auto

lemma json_step_update_no_date:
  "d_date F = None \<Longrightarrow> json_step (Update now eid F) doc = doc"
  using json_update_no_date[of F now doc eid] by auto

lemma map_update_absent:
  "\<not> list_ex (\<lambda>r. f r = k) xs \<Longrightarrow> map (\<lambda>r. if f r = k then g r else r) xs = xs"
  by (induction xs) auto

lemma json_update_sim:
  assumes "d_date F = Some d" and "tags_portable (dict_get (d_tags F) [])"
  shows "distinct (map row_id db) \<Longrightarrow>
     json_update_entry now (map row_to_entry db) eid F
       = Inr (list_ex (\<lambda>r. row_id r = eid) db,
              map row_to_entry
                (map (\<lambda>r. if row_id r = eid
                         then r\<lparr>row_date := d,
                                row_title := dict_get (d_title F) [],
                                row_body := dict_get (d_body F) [],
                                row_mood := dict_get (d_mood F) [],
                                row_tags := str_join '','' (dict_get (d_tags F) []),
                                row_updated_at := now\<rparr>
                         else r) db))"
proof (induction db)
  case Nil
  then show ?case by simp
next
  case (Cons r rs)
  let ?g = "\<lambda>r. r\<lparr>row_date := d, row_title := dict_get (d_title F) [],
                    row_body := dict_get (d_body F) [], row_mood := dict_get (d_mood F) [],
                    row_tags := str_join '','' (dict_get (d_tags F) []), row_updated_at := now\<rparr>"
  show ?case
  proof (cases "row_id r = eid")
    case True
    with Cons.prems have "\<not> list_ex (\<lambda>r. row_id r = eid) rs"
      by (auto simp: list_ex_iff image_iff)
    then have rest: "map (\<lambda>r. if row_id r = eid then ?g r else r) rs = rs"
      by (rule map_update_absent)
    have g: "row_to_entry (?g r) =
           (row_to_entry r)\<lparr>date := d, title := dict_get (d_title F) [], body := dict_get (d_body F) [],
                     mood := dict_get (d_mood F) [], tags := dict_get (d_tags F) [],
                     updated_at := now\<rparr>"
      using tags_roundtrip[OF assms(2)] by (simp add: row_to_entry_def split: if_splits)
    from True assms(1) show ?thesis by (simp add: rest g)
  next
    case False
    with Cons show ?thesis by simp
  qed
qed

lemma step_sim:
  assumes "distinct (map row_id db)" and "tags_portable (op_tags x)" and "\<not> rejected x db"
  shows "map row_to_entry (sqlite_step x db) = json_step x (map row_to_entry db)
         \<and> distinct (map row_id (sqlite_step x db))"
proof (cases x)
  case (Add uuid now entry)
  show ?thesis
  proof (cases "d_date entry")
    case None
    with Add assms(1) show ?thesis
      by (simp add: sqlite_add_entry_def json_add_entry_def Let_def)
  next
    case (Some d)
    with Add assms(3) have fresh: "\<not> list_ex (\<lambda>r. row_id r = dict_get (d_id entry) uuid) db"
      by (simp add: sqlite_add_entry_def Let_def split: if_splits)
    then have notin: "dict_get (d_id entry) uuid \<notin> row_id ` set db"
      by (auto simp: list_ex_iff)
    from Add assms(2) have "tags_portable (dict_get (d_tags entry) [])" by simp
    from tags_roundtrip[OF this] Add Some fresh notin assms(1) show ?thesis
      by (simp add: sqlite_add_entry_def json_add_entry_def Let_def row_to_entry_def
            split: if_splits)
  qed
next
  case (Update now eid updated)
  show ?thesis
  proof (cases "d_date updated")
    case None
    with Update assms(1) show ?thesis
      by (simp add: sqlite_update_entry_def json_step_update_no_date del: json_step.simps)
  next
    case (Some d)
    from Update assms(2) have tp: "tags_portable (dict_get (d_tags updated) [])" by simp
    let ?upd = "\<lambda>r. if row_id r = eid
                         then r\<lparr>row_date := d,
                                row_title := dict_get (d_title updated) [],
                                row_body := dict_get (d_body updated) [],
                                row_mood := dict_get (d_mood updated) [],
                                row_tags := str_join '','' (dict_get (d_tags updated) []),
                                row_updated_at := now\<rparr>
                         else r"
    have ids: "map row_id (map ?upd db) = map row_id db"
      by (induction db) auto
    have s: "sqlite_step x db = map ?upd db"
      using Update Some by (simp add: sqlite_update_entry_def)
    have j: "json_step x (map row_to_entry db) = map row_to_entry (map ?upd db)"
      using Update json_update_sim[OF Some tp assms(1), of now eid]
      by (simp only: json_step.simps sum.case prod.case)
    from assms(1) show ?thesis
      by (simp only: s j ids)
  qed
next
  case (Delete eid)
  with assms(1) show ?thesis
    by (simp add: sqlite_delete_entry_def json_delete_snd filter_map comp_def distinct_map_filter)
qed

lemma run_sim:
  "distinct (map row_id db) \<Longrightarrow> list_all (\<lambda>x. tags_portable (op_tags x)) ops \<Longrightarrow>
   no_rejected_add ops db \<Longrightarrow>
   map row_to_entry (sqlite_run ops db) = json_run ops (map row_to_entry db)"
proof (induction ops arbitrary: db)
  case Nil
  then show ?case by simp
next
  case (Cons x xs)
  from Cons.prems have x: "tags_portable (op_tags x)" "\<not> rejected x db"
    and xs: "list_all (\<lambda>x. tags_portable (op_tags x)) xs" "no_rejected_add xs (sqlite_step x db)"
    by simp_all
  from step_sim[OF Cons.prems(1) x]
  have s: "map row_to_entry (sqlite_step x db) = json_step x (map row_to_entry db)"
    and d: "distinct (map row_id (sqlite_step x db))"
    by simp_all
  from Cons.IH[OF d xs] s show ?case by simp
qed

text \<open>
  When no two rows share both date and \<open>created_at\<close>, every answer the query of
  \<open>list_entries\<close> may give (the rows of the table, sorted by the key, newest first) is the
  one of the model, whatever the database does with equal keys.
\<close>

lemma sorted_reverse_unique:
  assumes "mset ys = mset xs" and "sorted (rev (map key ys))" and "distinct (map key xs)"
  shows "ys = sorted_reverse key xs"
proof -
  let ?a = "rev ys" and ?b = "sort_key key (rev xs)"
  from assms(1) have sets: "set ys = set xs" by (rule mset_eq_setD)
  from assms(1) have "mset (map key ys) = mset (map key xs)" by simp
  with assms(3) have dys: "distinct (map key ys)"
    by (metis mset_eq_imp_distinct_iff)
  have "map key ?a = map key ?b"
  proof (rule sorted_distinct_set_unique)
    show "sorted (map key ?a)" using assms(2) by (simp add: rev_map)
    show "distinct (map key ?a)" using dys by (simp add: rev_map[symmetric])
    show "sorted (map key ?b)" by simp
    show "distinct (map key ?b)" using assms(3) by (simp add: distinct_map)
    show "set (map key ?a) = set (map key ?b)" using sets by simp
  qed
  moreover have "inj_on key (set ?a \<union> set ?b)"
    using assms(3) sets by (simp add: distinct_map)
  ultimately have "?a = ?b" by (simp add: inj_on_map_eq_map)
  then have "rev (rev ys) = rev ?b" by (rule arg_cong)
  then show ?thesis by (simp add: sorted_reverse_def)
qed

lemma list_entries_any_tie_order:
  assumes "mset res = mset db"
    and "sorted (rev (map (\<lambda>r. (row_date r, row_created_at r)) res))"
    and "distinct (map (\<lambda>r. (row_date r, row_created_at r)) db)"
  shows "map row_to_entry res = sqlite_list_entries db"
  using sorted_reverse_unique[OF assms]
  by (simp add: sqlite_list_entries_def order_by_desc_eq)

text \<open>
  Claim C1, amended. Replay a sequence of add, update and delete operations, with the same
  generated ids and clock readings, on an empty SQLite store and on an empty JSON store. If
  no tag list of the sequence has a tag with a comma or is the single empty tag, and no
  \<open>add_entry\<close> of the sequence is refused by the SQLite backend because its id is already
  stored, then \<open>list_entries\<close> returns the same list of entries in both backends.
\<close>

theorem list_entries_cross_backend:
  "list_all (\<lambda>x. tags_portable (op_tags x)) ops \<and> no_rejected_add ops [] \<longrightarrow>
   sqlite_list_entries (sqlite_run ops []) = json_list_entries (json_run ops [])"
proof
  assume "list_all (\<lambda>x. tags_portable (op_tags x)) ops \<and> no_rejected_add ops []"
  then have "map row_to_entry (sqlite_run ops []) = json_run ops (map row_to_entry [])"
    by (intro run_sim) simp_all
  then show "sqlite_list_entries (sqlite_run ops []) = json_list_entries (json_run ops [])"
    by (simp add: list_entries_sim)
qed

text \<open>
  Claim C1, as stated, fails: after one entry with the tag \<open>a,b\<close> is added, the SQLite
  backend lists it with the two tags \<open>a\<close> and \<open>b\<close>; and after two drafts with the same
  \<open>"id"\<close> are added, the SQLite backend lists one entry and the JSON backend two.
\<close>

theorem list_entries_cross_backend_counterexample:
  "map tags (sqlite_list_entries (sqlite_run ex_ops_comma [])) = [[''a'', ''b'']]
   \<and> map tags (json_list_entries (json_run ex_ops_comma [])) = [[''a,b'']]
   \<and> map title (sqlite_list_entries (sqlite_run ex_ops_same_id [])) = [''Second'']
   \<and> map title (json_list_entries (json_run ex_ops_same_id [])) = ['''', ''Second'']"
  by (simp add: ex_ops_comma_def ex_ops_same_id_def ex_draft_comma_def ex_draft_with_id_def
        ex_draft_same_id_def sqlite_list_entries_def json_list_entries_def
        sqlite_add_entry_def json_add_entry_def order_by_desc_def sorted_reverse_def
        row_to_entry_def dict_get_def Let_def)

theorem list_entries_cross_backend_witness:
  "list_all (\<lambda>x. tags_portable (op_tags x)) ex_ops \<and> no_rejected_add ex_ops []
   \<and> map entry_id (json_list_entries (json_run ex_ops [])) = [''u1'']
   \<and> sqlite_list_entries (sqlite_run ex_ops []) = json_list_entries (json_run ex_ops [])"
proof -
  have a: "list_all (\<lambda>x. tags_portable (op_tags x)) ex_ops"
    by (simp add: ex_ops_def tags_portable_def dict_get_def)
  have b: "no_rejected_add ex_ops []"
    by (simp add: ex_ops_def sqlite_add_entry_def sqlite_update_entry_def
          sqlite_delete_entry_def dict_get_def Let_def)
  have c: "map entry_id (json_list_entries (json_run ex_ops [])) = [''u1'']"
    by (simp add: ex_ops_def json_list_entries_def json_add_entry_def json_delete_entry_def
          sorted_reverse_def dict_get_def Let_def)
  from a b c list_entries_cross_backend[of ex_ops] show ?thesis by simp
qed

end
